theory Spec2Isabelle
  imports Main "HOL-Library.AList"
begin

section \<open>JavaScript values used by the worker scripts\<close>

text \<open>
  An optional string property of a JSON object is a \<open>string option\<close>: \<open>None\<close> is
  \<open>undefined\<close>. The operator \<open>a || b\<close> yields \<open>a\<close> when \<open>a\<close> is truthy (a non-empty
  string) and \<open>b\<close> otherwise.
\<close>

definition js_or :: "string option \<Rightarrow> string option \<Rightarrow> string option" where
  "js_or a b = (case a of None \<Rightarrow> b | Some s \<Rightarrow> if s \<noteq> [] then Some s else b)"

definition js_or_str :: "string option \<Rightarrow> string \<Rightarrow> string" where
  "js_or_str a d = (case a of None \<Rightarrow> d | Some s \<Rightarrow> if s \<noteq> [] then s else d)"

text \<open>Decimal rendering of a non-negative number, as in a template literal.\<close>

definition digit :: "nat \<Rightarrow> char" where
  "digit d = ''0123456789'' ! d"

function dec :: "nat \<Rightarrow> string" where
  "dec n = (if n < 10 then [digit n] else dec (n div 10) @ [digit (n mod 10)])"
  by pat_completeness auto
termination
  by (relation "measure (\<lambda>n. n)") auto

declare dec.simps [simp del]

section \<open>Data model\<close>

text \<open>
  An episode as \<open>parseRSS\<close> builds it and as \<open>list.json\<close> stores it. Every property
  may be absent. \<open>ep_id\<close>, \<open>ep_podcastId\<close> and \<open>ep_isNew\<close> are the properties \<open>id\<close>,
  \<open>podcastId\<close> and \<open>isNew\<close> that the handlers add.
\<close>

record episode =
  ep_title :: "string option"
  ep_url :: "string option"
  ep_type :: "string option"
  ep_size :: "nat option"
  ep_pubDate :: "string option"
  ep_guid :: "string option"
  ep_duration :: "string option"
  ep_description :: "string option"
  ep_id :: "string option"
  ep_podcastId :: "string option"
  ep_isNew :: "bool option"

record channel =
  ch_title :: "string option"
  ch_author :: "string option"
  ch_imageUrl :: "string option"
  ch_description :: "string option"

record subscription =
  sub_id :: string
  sub_title :: string
  sub_author :: string
  sub_feedUrl :: string
  sub_imageUrl :: string
  sub_description :: string
  sub_episodeCount :: nat
  sub_lastUpdated :: string
  sub_subscribedAt :: string

text \<open>The file \<open>data/episodes/<id>/list.json\<close>.\<close>

record episode_list =
  el_success :: bool
  el_podcastId :: string
  el_count :: nat
  el_lastUpdated :: "string option"
  el_episodes :: "episode list option"

text \<open>The file \<open>data/feeds/<id>.json\<close>.\<close>

record feed_snapshot =
  fs_success :: bool
  fs_podcastId :: string
  fs_channel :: channel
  fs_episodeCount :: nat
  fs_lastUpdated :: string

record search_result =
  sr_itunesId :: nat
  sr_title :: string
  sr_author :: string
  sr_feedUrl :: string
  sr_imageUrl :: string
  sr_description :: string
  sr_genre :: string
  sr_trackCount :: nat

datatype storage = NotUploaded string | Uploaded string string

text \<open>
  The file \<open>data/requests/<requestId>.json\<close>: the union of the objects the handlers
  write there. \<open>rr_requestId\<close> and \<open>rr_timestamp\<close> are optional because
  \<open>subscribe\<close> and \<open>unsubscribe\<close> return the object without them and \<open>main\<close> adds them.
\<close>

record result_record =
  rr_success :: bool
  rr_action :: "string option"
  rr_requestId :: "string option"
  rr_timestamp :: "string option"
  rr_error :: "string option"
  rr_podcastId :: "string option"
  rr_title :: "string option"
  rr_episodeCount :: "nat option"
  rr_query :: "string option"
  rr_resultCount :: "nat option"
  rr_results :: "search_result list option"
  rr_episodeId :: "string option"
  rr_originalUrl :: "string option"
  rr_size :: "nat option"
  rr_storage :: "storage option"

text \<open>
  What \<open>updateFeed\<close> returns: \<open>{updated: true, newEpisodes, totalEpisodes}\<close> or
  \<open>{updated: false, error}\<close>. \<open>Died\<close> is no object: \<open>updateFeed\<close> does not return,
  because an uncaught exception has ended the process.
\<close>

datatype update_result = Updated nat nat | NotUpdated string | Died string

text \<open>The file \<open>data/last_update.json\<close>.\<close>

record update_summary =
  us_timestamp :: string
  us_subscriptionsUpdated :: nat
  us_results :: "(string \<times> update_result) list"

text \<open>
  The \<open>data\<close> directory. \<open>subscriptions\<close> is \<open>data/subscriptions.json\<close>, an object
  whose keys keep their insertion order (\<open>None\<close>: the file does not exist). The other
  directories hold one file per key. \<open>request_log\<close> lists, in order, the keys of all
  writes to \<open>data/requests\<close>, so that the number of writes can be counted. Keys are
  taken as path-safe identifiers: distinct keys are distinct files.
\<close>

record store =
  subscriptions :: "(string \<times> subscription) list option"
  feeds :: "string \<rightharpoonup> feed_snapshot"
  episodes :: "string \<rightharpoonup> episode_list"
  requests :: "string \<rightharpoonup> result_record"
  request_log :: "string list"
  search_cache :: "string \<rightharpoonup> result_record"
  lookups :: "nat \<rightharpoonup> search_result"
  downloads :: "string \<rightharpoonup> result_record"
  last_update :: "update_summary option"

text \<open>
  The outcome of \<open>fetch(url)\<close>: the promise rejects with a message, or resolves with
  a status and a body, or an exception is thrown inside the response callback, where
  nothing catches it and the process dies (\<open>Crashed\<close>); \<open>ok\<close> is \<open>status < 400\<close>.
\<close>

datatype fetch_outcome = Rejected string | Response nat string | Crashed string

definition ok :: "nat \<Rightarrow> bool" where
  "ok status \<longleftrightarrow> status < 400"

definition fetch_settles :: "fetch_outcome \<Rightarrow> bool" where
  "fetch_settles out =
     (case out of Rejected msg \<Rightarrow> True | Response status body \<Rightarrow> True | Crashed msg \<Rightarrow> False)"

section \<open>The function \<open>fetch\<close> of \<open>subscribe.js\<close> and \<open>update-feeds.js\<close>\<close>

text \<open>
  A request that \<open>protocol.get\<close> has issued ends with an \<open>error\<close> event or with a
  response: its status, its \<open>Location\<close> and \<open>Content-Type\<close> headers and its body.
\<close>

datatype net_outcome = NetError string | NetResponse nat "string option" "string option" string

text \<open>The \<open>Location\<close> that a response redirects to: a status 3xx with a truthy header.\<close>

definition redirect_to :: "nat \<Rightarrow> string option \<Rightarrow> string option" where
  "redirect_to status location =
     (if 300 \<le> status \<and> status < 400
      then (case location of None \<Rightarrow> None | Some l \<Rightarrow> if l \<noteq> [] then Some l else None)
      else None)"

text \<open>
  The inner function \<open>request(currentUrl, redirectCount)\<close>. \<open>secure\<close> says that
  \<open>protocol\<close> is \<open>https\<close>: it is chosen once, from the first URL. \<open>get_throws\<close> stands
  for the check that \<open>protocol.get\<close> makes before it issues a request: it throws for a
  URL that is not absolute and for a URL of another protocol than the module's, and
  \<open>get_throws secure url\<close> is then the message. \<open>net\<close> is the network. The first call is
  made inside the promise executor, where a throw rejects the promise; the later
  calls are made from the response callback, with the \<open>Location\<close> header as it is.
\<close>

function request ::
  "(bool \<Rightarrow> string \<Rightarrow> string option) \<Rightarrow> (string \<Rightarrow> net_outcome) \<Rightarrow> bool \<Rightarrow> string \<Rightarrow> nat
     \<Rightarrow> fetch_outcome" where
  "request get_throws net secure currentUrl redirectCount =
     (if redirectCount > 10 then Rejected ''Too many redirects''
      else
        case get_throws secure currentUrl of
          Some msg \<Rightarrow> if redirectCount = 0 then Rejected msg else Crashed msg
        | None \<Rightarrow>
            (case net currentUrl of
               NetError msg \<Rightarrow> Rejected msg
             | NetResponse status location contentType body \<Rightarrow>
                 (case redirect_to status location of
                    Some l \<Rightarrow> request get_throws net secure l (redirectCount + 1)
                  | None \<Rightarrow> Response status body)))"
  by pat_completeness auto
termination
  by (relation "measure (\<lambda>(get_throws, net, secure, currentUrl, redirectCount). 11 - redirectCount)")
    auto

declare request.simps [simp del]

text \<open>
  \<open>fetch(url)\<close>. The handlers below take the outcome of \<open>fetch\<close> for each URL as their
  parameter \<open>fetch\<close>; \<open>fetch_url get_throws net\<close> is that parameter on a given network.
\<close>

definition fetch_url ::
  "(bool \<Rightarrow> string \<Rightarrow> string option) \<Rightarrow> (string \<Rightarrow> net_outcome) \<Rightarrow> string \<Rightarrow> fetch_outcome" where
  "fetch_url get_throws net url = request get_throws net (take 5 url = ''https'') url 0"

section \<open>Feed synchronisation (\<open>scripts/update-feeds.js\<close>)\<close>

text \<open>The identity key \<open>ep.guid || ep.url\<close>.\<close>

definition identity :: "episode \<Rightarrow> string option" where
  "identity ep = js_or (ep_guid ep) (ep_url ep)"

definition existingEpisodes :: "store \<Rightarrow> string \<Rightarrow> episode list" where
  "existingEpisodes s pid =
     (case episodes s pid of
        None \<Rightarrow> []
      | Some existing \<Rightarrow> (case el_episodes existing of None \<Rightarrow> [] | Some es \<Rightarrow> es))"

definition existingGuids :: "episode list \<Rightarrow> string option set" where
  "existingGuids existing = set (map identity existing)"

definition newEpisodes :: "episode list \<Rightarrow> episode list \<Rightarrow> episode list" where
  "newEpisodes existing eps = filter (\<lambda>ep. identity ep \<notin> existingGuids existing) eps"

text \<open>The placeholder \<open>`new-${Date.now()}-${i}`\<close>; \<open>ms i\<close> is the clock at item \<open>i\<close>.\<close>

definition new_placeholder :: "(nat \<Rightarrow> nat) \<Rightarrow> nat \<Rightarrow> string" where
  "new_placeholder ms i = ''new-'' @ dec (ms i) @ ''-'' @ dec i"

definition tagNew :: "(nat \<Rightarrow> nat) \<Rightarrow> string \<Rightarrow> nat \<times> episode \<Rightarrow> episode" where
  "tagNew ms pid = (\<lambda>(i, ep).
     ep\<lparr>ep_id := Some (js_or_str (ep_guid ep) (new_placeholder ms i)),
        ep_podcastId := Some pid,
        ep_isNew := Some True\<rparr>)"

definition tagKnown :: "episode \<Rightarrow> episode" where
  "tagKnown ep = ep\<lparr>ep_isNew := Some False\<rparr>"

definition allEpisodes :: "(nat \<Rightarrow> nat) \<Rightarrow> string \<Rightarrow> episode list \<Rightarrow> episode list \<Rightarrow> episode list" where
  "allEpisodes ms pid new existing =
     map (tagNew ms pid) (enumerate 0 new) @ map tagKnown existing"

text \<open>
  \<open>updateFeed(subscription)\<close>. The network (\<open>fetch\<close>), the regular-expression
  extraction (\<open>parseRSS\<close>) and the clock (\<open>now\<close> for \<open>new Date().toISOString()\<close>,
  \<open>ms\<close> for \<open>Date.now()\<close>) are parameters. A rejected promise and every exception
  thrown in the body are caught and become \<open>NotUpdated\<close>; an exception thrown
  inside the callback of \<open>fetch\<close> is not.
\<close>

definition updateFeed ::
  "(string \<Rightarrow> fetch_outcome) \<Rightarrow> (string \<Rightarrow> channel \<times> episode list) \<Rightarrow> string \<Rightarrow> (nat \<Rightarrow> nat)
     \<Rightarrow> subscription \<Rightarrow> store \<Rightarrow> store \<times> update_result" where
  "updateFeed fetch parseRSS now ms sub s =
     (case fetch (sub_feedUrl sub) of
        Rejected msg \<Rightarrow> (s, NotUpdated msg)
      | Crashed msg \<Rightarrow> (s, Died msg)
      | Response status text \<Rightarrow>
          if \<not> ok status then (s, NotUpdated (''HTTP '' @ dec status))
          else
            let (chan, eps) = parseRSS text;
                existing = existingEpisodes s (sub_id sub);
                new = newEpisodes existing eps;
                s1 = (if length new > 0
                      then s\<lparr>episodes := (episodes s)(sub_id sub \<mapsto>
                             \<lparr>el_success = True, el_podcastId = sub_id sub,
                              el_count = length (allEpisodes ms (sub_id sub) new existing),
                              el_lastUpdated = Some now,
                              el_episodes = Some (allEpisodes ms (sub_id sub) new existing)\<rparr>)\<rparr>
                      else s);
                s2 = s1\<lparr>feeds := (feeds s1)(sub_id sub \<mapsto>
                        \<lparr>fs_success = True, fs_podcastId = sub_id sub,
                         fs_channel = chan\<lparr>ch_title := Some (sub_title sub),
                                          ch_imageUrl := js_or (ch_imageUrl chan) (Some (sub_imageUrl sub))\<rparr>,
                         fs_episodeCount = length eps,
                         fs_lastUpdated = now\<rparr>)\<rparr>
            in (s2, Updated (length new) (length eps)))"

section \<open>Subscribe and unsubscribe (\<open>scripts/subscribe.js\<close>)\<close>

text \<open>
  \<open>process.env\<close>: an unset variable and an empty one are the same to
  \<open>process.env.X || default\<close>, so each variable is a string, empty when unset.
\<close>

record env =
  ACTION :: string
  FEED_URL :: string
  PODCAST_ID :: string
  PODCAST_TITLE :: string
  REQUEST_ID :: string
  QUERY :: string
  LIMIT :: string
  EPISODE_URL :: string
  EPISODE_ID :: string

text \<open>
  The module constants with their defaults; \<open>nowms\<close> is \<open>Date.now()\<close> when the
  script starts.
\<close>

definition ACTION_of :: "env \<Rightarrow> string" where
  "ACTION_of e = (if ACTION e \<noteq> [] then ACTION e else ''subscribe'')"

definition REQUEST_ID_of :: "nat \<Rightarrow> env \<Rightarrow> string" where
  "REQUEST_ID_of nowms e = (if REQUEST_ID e \<noteq> [] then REQUEST_ID e else dec nowms)"

definition EPISODE_ID_of :: "nat \<Rightarrow> env \<Rightarrow> string" where
  "EPISODE_ID_of nowms e = (if EPISODE_ID e \<noteq> [] then EPISODE_ID e else dec nowms)"

definition LIMIT_of :: "env \<Rightarrow> string" where
  "LIMIT_of e = (if LIMIT e \<noteq> [] then LIMIT e else ''25'')"

text \<open>
  \<open>generatePodcastId\<close>: the first 12 characters of the hexadecimal MD5 digest. The
  digest comes from Node's \<open>crypto\<close> module and is the parameter \<open>md5hex\<close>.
\<close>

definition generatePodcastId :: "(string \<Rightarrow> string) \<Rightarrow> string \<Rightarrow> string" where
  "generatePodcastId md5hex feedUrl = take 12 (md5hex feedUrl)"

text \<open>\<open>PODCAST_ID || generatePodcastId(FEED_URL)\<close>, as both handlers compute it.\<close>

definition podcastId_of :: "(string \<Rightarrow> string) \<Rightarrow> env \<Rightarrow> string" where
  "podcastId_of md5hex e =
     (if PODCAST_ID e \<noteq> [] then PODCAST_ID e else generatePodcastId md5hex (FEED_URL e))"

definition ep_placeholder :: "nat \<Rightarrow> string" where
  "ep_placeholder index = ''ep-'' @ dec index"

definition tagSubscribed :: "string \<Rightarrow> nat \<times> episode \<Rightarrow> episode" where
  "tagSubscribed pid = (\<lambda>(index, ep).
     ep\<lparr>ep_id := Some (js_or_str (ep_guid ep) (ep_placeholder index)),
        ep_podcastId := Some pid\<rparr>)"

definition no_result :: result_record where
  "no_result =
     \<lparr>rr_success = False, rr_action = None, rr_requestId = None, rr_timestamp = None,
      rr_error = None, rr_podcastId = None, rr_title = None, rr_episodeCount = None,
      rr_query = None, rr_resultCount = None, rr_results = None, rr_episodeId = None,
      rr_originalUrl = None, rr_size = None, rr_storage = None\<rparr>"

definition loaded_subscriptions :: "store \<Rightarrow> (string \<times> subscription) list" where
  "loaded_subscriptions s = (case subscriptions s of None \<Rightarrow> [] | Some al \<Rightarrow> al)"

text \<open>
  How a handler ends without a result of its own: it throws an error, which \<open>main\<close>
  catches, or an uncaught exception ends the process.
\<close>

datatype failure = Thrown string | Uncaught string

text \<open>How the process ends: an exit code, an uncaught exception, or a promise that never
  settles, so that \<open>main\<close> never continues.\<close>

datatype ending = Exit nat | Killed string | Unsettled

text \<open>
  \<open>subscribe()\<close>. Every failure happens before the first write.
\<close>

definition subscribe ::
  "(string \<Rightarrow> string) \<Rightarrow> (string \<Rightarrow> fetch_outcome) \<Rightarrow> (string \<Rightarrow> channel \<times> episode list)
     \<Rightarrow> string \<Rightarrow> env \<Rightarrow> store \<Rightarrow> failure + (store \<times> result_record)" where
  "subscribe md5hex fetch parseRSS now e s =
     (if FEED_URL e = [] then Inl (Thrown ''No feed URL provided'')
      else
        let podcastId = podcastId_of md5hex e in
        case fetch (FEED_URL e) of
          Rejected msg \<Rightarrow> Inl (Thrown msg)
        | Crashed msg \<Rightarrow> Inl (Uncaught msg)
        | Response status text \<Rightarrow>
            if \<not> ok status then Inl (Thrown (''Failed to fetch feed: '' @ dec status))
            else
              let (chan, eps) = parseRSS text;
                  subs = loaded_subscriptions s;
                  sub = \<lparr>sub_id = podcastId,
                         sub_title = js_or_str (js_or (Some (PODCAST_TITLE e)) (ch_title chan)) ''Unknown'',
                         sub_author = js_or_str (ch_author chan) [],
                         sub_feedUrl = FEED_URL e,
                         sub_imageUrl = js_or_str (ch_imageUrl chan) [],
                         sub_description = js_or_str (ch_description chan) [],
                         sub_episodeCount = length eps,
                         sub_lastUpdated = now,
                         sub_subscribedAt =
                           (case map_of subs podcastId of
                              None \<Rightarrow> now
                            | Some old \<Rightarrow> if sub_subscribedAt old \<noteq> [] then sub_subscribedAt old else now)\<rparr>;
                  s1 = s\<lparr>subscriptions := Some (AList.update podcastId sub subs)\<rparr>;
                  s2 = s1\<lparr>feeds := (feeds s1)(podcastId \<mapsto>
                          \<lparr>fs_success = True, fs_podcastId = podcastId, fs_channel = chan,
                           fs_episodeCount = length eps, fs_lastUpdated = now\<rparr>)\<rparr>;
                  episodesList = map (tagSubscribed podcastId) (enumerate 0 eps);
                  s3 = s2\<lparr>episodes := (episodes s2)(podcastId \<mapsto>
                          \<lparr>el_success = True, el_podcastId = podcastId, el_count = length episodesList,
                           el_lastUpdated = None, el_episodes = Some episodesList\<rparr>)\<rparr>
              in Inr (s3, no_result\<lparr>rr_success := True, rr_action := Some ''subscribe'',
                                    rr_podcastId := Some podcastId,
                                    rr_title := Some (sub_title sub),
                                    rr_episodeCount := Some (length eps)\<rparr>))"

definition unsubscribe :: "(string \<Rightarrow> string) \<Rightarrow> env \<Rightarrow> store \<Rightarrow> store \<times> result_record" where
  "unsubscribe md5hex e s =
     (let podcastId = podcastId_of md5hex e;
          subs = loaded_subscriptions s;
          title = (case map_of subs podcastId of
                     None \<Rightarrow> ''Unknown''
                   | Some sub \<Rightarrow> if sub_title sub \<noteq> [] then sub_title sub else ''Unknown'');
          s1 = s\<lparr>subscriptions := Some (AList.delete podcastId subs)\<rparr>
      in (s1, no_result\<lparr>rr_success := True, rr_action := Some ''unsubscribe'',
                         rr_podcastId := Some podcastId, rr_title := Some title\<rparr>))"

text \<open>A write of \<open>data/requests/<rid>.json\<close>.\<close>

definition write_request :: "string \<Rightarrow> result_record \<Rightarrow> store \<Rightarrow> store" where
  "write_request rid r s =
     s\<lparr>requests := (requests s)(rid \<mapsto> r), request_log := request_log s @ [rid]\<rparr>"

text \<open>
  \<open>main()\<close> of \<open>subscribe.js\<close>; the second component is how the process ends.
\<close>

definition subscribe_main ::
  "(string \<Rightarrow> string) \<Rightarrow> (string \<Rightarrow> fetch_outcome) \<Rightarrow> (string \<Rightarrow> channel \<times> episode list)
     \<Rightarrow> string \<Rightarrow> nat \<Rightarrow> env \<Rightarrow> store \<Rightarrow> store \<times> ending" where
  "subscribe_main md5hex fetch parseRSS now nowms e s =
     (let rid = REQUEST_ID_of nowms e in
      case (if ACTION_of e = ''unsubscribe'' then Inr (unsubscribe md5hex e s)
            else subscribe md5hex fetch parseRSS now e s) of
        Inr (s', result) \<Rightarrow>
          (write_request rid (result\<lparr>rr_requestId := Some rid, rr_timestamp := Some now\<rparr>) s',
           Exit 0)
      | Inl (Thrown msg) \<Rightarrow>
          (write_request rid
             (no_result\<lparr>rr_success := False, rr_action := Some (ACTION_of e),
                        rr_requestId := Some rid, rr_error := Some msg,
                        rr_timestamp := Some now\<rparr>) s, Exit 1)
      | Inl (Uncaught msg) \<Rightarrow> (s, Killed msg))"

section \<open>Search (\<open>main\<close> of the search script)\<close>

text \<open>
  \<open>hashQuery\<close>: \<open>normalise\<close> stands for \<open>toLowerCase().trim()\<close>.
\<close>

definition hashQuery :: "(string \<Rightarrow> string) \<Rightarrow> (string \<Rightarrow> string) \<Rightarrow> string \<Rightarrow> string" where
  "hashQuery md5hex normalise query = take 12 (md5hex (normalise query))"

definition save_lookup :: "search_result \<Rightarrow> store \<Rightarrow> store" where
  "save_lookup r s =
     (if sr_itunesId r \<noteq> 0 \<and> lookups s (sr_itunesId r) = None
      then s\<lparr>lookups := (lookups s)(sr_itunesId r \<mapsto> r)\<rparr> else s)"

text \<open>
  \<open>main()\<close> of the search script. The query to the search provider
  (\<open>searchPodcasts\<close>: fetch, \<open>JSON.parse\<close>, field extraction) is a parameter; \<open>Inl msg\<close>
  is an error thrown with that message. The \<open>fetch\<close> of this script follows no
  redirect and calls \<open>https.get\<close> once, inside the promise executor.
\<close>

definition search_main ::
  "(string \<Rightarrow> string) \<Rightarrow> (string \<Rightarrow> string) \<Rightarrow> (string \<Rightarrow> string \<Rightarrow> string + search_result list)
     \<Rightarrow> string \<Rightarrow> nat \<Rightarrow> env \<Rightarrow> store \<Rightarrow> store \<times> ending" where
  "search_main md5hex normalise searchPodcasts now nowms e s =
     (if QUERY e = [] then (s, Exit 1)
      else
        let rid = REQUEST_ID_of nowms e in
        case searchPodcasts (QUERY e) (LIMIT_of e) of
          Inr results \<Rightarrow>
            let response = no_result\<lparr>rr_success := True, rr_query := Some (QUERY e),
                                     rr_requestId := Some rid,
                                     rr_resultCount := Some (length results),
                                     rr_timestamp := Some now,
                                     rr_results := Some results\<rparr>;
                s1 = s\<lparr>search_cache := (search_cache s)(hashQuery md5hex normalise (QUERY e) \<mapsto> response)\<rparr>;
                s2 = write_request rid response s1
            in (fold save_lookup results s2, Exit 0)
        | Inl msg \<Rightarrow>
            (write_request rid
               (no_result\<lparr>rr_success := False, rr_query := Some (QUERY e),
                          rr_requestId := Some rid, rr_error := Some msg,
                          rr_timestamp := Some now\<rparr>) s, Exit 1))"

section \<open>Download (\<open>main\<close> of the download script)\<close>

definition PODCAST_ID_download :: "env \<Rightarrow> string" where
  "PODCAST_ID_download e = (if PODCAST_ID e \<noteq> [] then PODCAST_ID e else ''unknown'')"

text \<open>
  The outcome of \<open>downloadFile(url, dest)\<close>: the promise rejects, or resolves with the
  size and the content type, or an uncaught exception ends the process, or the
  promise never settles.
\<close>

datatype download_outcome =
  DownloadRejected string | Downloaded nat "string option" | DownloadCrashed string
  | DownloadUnsettled

definition download_settles :: "download_outcome \<Rightarrow> bool" where
  "download_settles out =
     (case out of
        DownloadRejected msg \<Rightarrow> True
      | Downloaded sz contentType \<Rightarrow> True
      | DownloadCrashed msg \<Rightarrow> False
      | DownloadUnsettled \<Rightarrow> False)"

text \<open>
  The inner function \<open>request\<close> of \<open>downloadFile\<close>. \<open>resolve_url location currentUrl\<close>
  stands for \<open>new URL(location, currentUrl).href\<close>, \<open>None\<close> when it throws. On a
  redirect the stream \<open>file\<close> is closed and the stream \<open>newFile\<close> that replaces it is
  never used: the final response is piped into the closed \<open>file\<close>, whose \<open>finish\<close>
  event, the only call of \<open>resolve\<close>, does not come. So after a redirect a response
  with status 200 leaves the promise unsettled.
\<close>

function download_request ::
  "(bool \<Rightarrow> string \<Rightarrow> string option) \<Rightarrow> (string \<Rightarrow> string \<Rightarrow> string option)
     \<Rightarrow> (string \<Rightarrow> net_outcome) \<Rightarrow> bool \<Rightarrow> string \<Rightarrow> nat \<Rightarrow> download_outcome" where
  "download_request get_throws resolve_url net secure currentUrl redirectCount =
     (if redirectCount > 10 then DownloadRejected ''Too many redirects''
      else
        case get_throws secure currentUrl of
          Some msg \<Rightarrow> if redirectCount = 0 then DownloadRejected msg else DownloadCrashed msg
        | None \<Rightarrow>
            (case net currentUrl of
               NetError msg \<Rightarrow> DownloadRejected msg
             | NetResponse status location contentType body \<Rightarrow>
                 (case redirect_to status location of
                    Some l \<Rightarrow>
                      (case resolve_url l currentUrl of
                         None \<Rightarrow> DownloadCrashed ''Invalid URL''
                       | Some newUrl \<Rightarrow>
                           download_request get_throws resolve_url net secure newUrl
                             (redirectCount + 1))
                  | None \<Rightarrow>
                      if status \<noteq> 200 then DownloadRejected (''Download failed: '' @ dec status)
                      else if redirectCount = 0 then Downloaded (length body) contentType
                      else DownloadUnsettled)))"
  by pat_completeness auto
termination
  by (relation "measure (\<lambda>(get_throws, resolve_url, net, secure, currentUrl, redirectCount).
          11 - redirectCount)") auto

declare download_request.simps [simp del]

definition downloadFile ::
  "(bool \<Rightarrow> string \<Rightarrow> string option) \<Rightarrow> (string \<Rightarrow> string \<Rightarrow> string option)
     \<Rightarrow> (string \<Rightarrow> net_outcome) \<Rightarrow> string \<Rightarrow> download_outcome" where
  "downloadFile get_throws resolve_url net url =
     download_request get_throws resolve_url net (take 5 url = ''https'') url 0"

text \<open>
  \<open>main()\<close> of the download script. \<open>valid_url\<close> says whether \<open>new URL(EPISODE_URL)\<close>
  returns; it throws otherwise, before the \<open>try\<close>, and nothing handles the rejection
  of \<open>main()\<close>. The upload (\<open>uploadToInternetArchive\<close>, given the identifier before its
  normalisation and the content type) is a parameter. The temporary file is not part
  of the store.
\<close>

definition download_main ::
  "(string \<Rightarrow> bool) \<Rightarrow> (bool \<Rightarrow> string \<Rightarrow> string option) \<Rightarrow> (string \<Rightarrow> string \<Rightarrow> string option)
     \<Rightarrow> (string \<Rightarrow> net_outcome) \<Rightarrow> (string \<Rightarrow> string option \<Rightarrow> string + storage)
     \<Rightarrow> string \<Rightarrow> nat \<Rightarrow> env \<Rightarrow> store \<Rightarrow> store \<times> ending" where
  "download_main valid_url get_throws resolve_url net uploadToInternetArchive now nowms e s =
     (if EPISODE_URL e = [] then (s, Exit 1)
      else if \<not> valid_url (EPISODE_URL e) then (s, Killed ''Invalid URL'')
      else
        let rid = REQUEST_ID_of nowms e;
            eid = EPISODE_ID_of nowms e;
            errorRecord = (\<lambda>msg. no_result\<lparr>rr_success := False, rr_requestId := Some rid,
                                             rr_episodeId := Some eid, rr_error := Some msg,
                                             rr_timestamp := Some now\<rparr>)
        in
        case downloadFile get_throws resolve_url net (EPISODE_URL e) of
          DownloadRejected msg \<Rightarrow> (write_request rid (errorRecord msg) s, Exit 1)
        | DownloadCrashed msg \<Rightarrow> (s, Killed msg)
        | DownloadUnsettled \<Rightarrow> (s, Unsettled)
        | Downloaded sz contentType \<Rightarrow>
            (case uploadToInternetArchive
                    (''podcast-'' @ PODCAST_ID_download e @ ''-'' @ eid) contentType of
               Inl msg \<Rightarrow> (write_request rid (errorRecord msg) s, Exit 1)
             | Inr uploadResult \<Rightarrow>
                 let record = no_result\<lparr>rr_success := True, rr_requestId := Some rid,
                                         rr_episodeId := Some eid,
                                         rr_podcastId := Some (PODCAST_ID_download e),
                                         rr_originalUrl := Some (EPISODE_URL e),
                                         rr_size := Some sz,
                                         rr_timestamp := Some now,
                                         rr_storage := Some uploadResult\<rparr>;
                     s1 = s\<lparr>downloads := (downloads s)(eid \<mapsto> record)\<rparr>
                 in (write_request rid record s1, Exit 0)))"

section \<open>Batch refresh (\<open>main\<close> of \<open>scripts/update-feeds.js\<close>)\<close>

text \<open>
  The loop over \<open>Object.keys(subscriptions)\<close>. \<open>k\<close> counts the iterations;
  \<open>clock k\<close> and \<open>ms k\<close> are the clock readings of iteration \<open>k\<close>. The state is the
  object \<open>subscriptions\<close> in memory, the store and the object \<open>results\<close>. \<open>Inl\<close>
  is the end of the process inside the loop, with the store as it then is: when
  \<open>updateFeed\<close> does not return, and when a key has no entry, which would make
  \<open>updateFeed(undefined)\<close> throw outside its \<open>try\<close>.
\<close>

definition died :: "update_result \<Rightarrow> bool" where
  "died r = (case r of Updated n m \<Rightarrow> False | NotUpdated msg \<Rightarrow> False | Died msg \<Rightarrow> True)"


fun feed_loop ::
  "(string \<Rightarrow> fetch_outcome) \<Rightarrow> (string \<Rightarrow> channel \<times> episode list) \<Rightarrow> (nat \<Rightarrow> string)
     \<Rightarrow> (nat \<Rightarrow> nat \<Rightarrow> nat) \<Rightarrow> nat \<Rightarrow> string list
     \<Rightarrow> (string \<times> subscription) list \<times> store \<times> (string \<times> update_result) list
     \<Rightarrow> store + ((string \<times> subscription) list \<times> store \<times> (string \<times> update_result) list)" where
  "feed_loop fetch parseRSS clock ms k [] st = Inr st"
| "feed_loop fetch parseRSS clock ms k (pid # pids) (subs, s, results) =
     (case map_of subs pid of
        None \<Rightarrow> Inl s
      | Some sub \<Rightarrow>
          let (s', r) = updateFeed fetch parseRSS (clock k) (ms k) sub s in
          if died r then Inl s'
          else
            let subs1 = AList.map_entry pid (\<lambda>x. x\<lparr>sub_lastUpdated := clock k\<rparr>) subs;
                subs2 = (case r of
                           Updated n totalEpisodes \<Rightarrow>
                             if totalEpisodes \<noteq> 0
                             then AList.map_entry pid (\<lambda>x. x\<lparr>sub_episodeCount := totalEpisodes\<rparr>) subs1
                             else subs1
                         | NotUpdated msg \<Rightarrow> subs1
                         | Died msg \<Rightarrow> subs1)
            in feed_loop fetch parseRSS clock ms (Suc k) pids
                 (subs2, s', AList.update pid r results))"

text \<open>
  \<open>main()\<close> of \<open>update-feeds.js\<close>: the store it leaves. \<open>subscriptions.json\<close> and
  \<open>last_update.json\<close> are written after the loop, so not when the process ends inside
  it.
\<close>

definition update_feeds_main ::
  "(string \<Rightarrow> fetch_outcome) \<Rightarrow> (string \<Rightarrow> channel \<times> episode list) \<Rightarrow> (nat \<Rightarrow> string)
     \<Rightarrow> (nat \<Rightarrow> nat \<Rightarrow> nat) \<Rightarrow> store \<Rightarrow> store" where
  "update_feeds_main fetch parseRSS clock ms s =
     (case subscriptions s of
        None \<Rightarrow> s
      | Some subs \<Rightarrow>
          (case feed_loop fetch parseRSS clock ms 0 (map fst subs) (subs, s, []) of
             Inl s' \<Rightarrow> s'
           | Inr (subs', s', results) \<Rightarrow>
               s'\<lparr>subscriptions := Some subs',
                  last_update := Some \<lparr>us_timestamp = clock (length subs),
                                       us_subscriptionsUpdated = length (map fst subs),
                                       us_results = results\<rparr>\<rparr>))"

text \<open>
  What one iteration of the loop does to the entry of its subscription, \<open>t\<close> being the
  clock of the iteration, when \<open>updateFeed\<close> returns: \<open>lastUpdated\<close> is set, and
  \<open>episodeCount\<close> is set when \<open>totalEpisodes\<close> of the result is truthy, that is when
  the fetch succeeded and the feed has items.
\<close>

definition touch ::
  "(string \<Rightarrow> fetch_outcome) \<Rightarrow> (string \<Rightarrow> channel \<times> episode list) \<Rightarrow> string
     \<Rightarrow> subscription \<Rightarrow> subscription" where
  "touch fetch parseRSS t sub =
     sub\<lparr>sub_lastUpdated := t,
         sub_episodeCount :=
           (case fetch (sub_feedUrl sub) of
              Rejected msg \<Rightarrow> sub_episodeCount sub
            | Crashed msg \<Rightarrow> sub_episodeCount sub
            | Response status body \<Rightarrow>
                if ok status \<and> snd (parseRSS body) \<noteq> [] then length (snd (parseRSS body))
                else sub_episodeCount sub)\<rparr>"

section \<open>The poller (\<open>android/GitHubActionsClient.java\<close>)\<close>

text \<open>
  One read of \<open>/data/requests/<requestId>.json\<close>: \<open>onFailure\<close> with an
  \<open>IOException\<close>, or \<open>onResponse\<close> with a status code and a body.
\<close>

datatype read_outcome = IOFailure string | HttpResponse nat string

datatype callback = OnSuccess string | OnError string

text \<open>The effects of the poller: a GET issued at an attempt, a delayed post.\<close>

datatype event = Get nat | Delay nat

definition isSuccessful :: "nat \<Rightarrow> bool" where
  "isSuccessful code \<longleftrightarrow> 200 \<le> code \<and> code < 300"

text \<open>
  \<open>pollForResults\<close> and \<open>scheduleRetry\<close>. \<open>pages requestId attempt\<close> is what the read
  issued at that attempt returns. The result is the callback that fires and the
  effects so far. \<open>attempt\<close> is a Java \<open>int\<close> that starts at 0 and never exceeds 61.
\<close>

function pollForResults ::
    "(string \<Rightarrow> nat \<Rightarrow> read_outcome) \<Rightarrow> string \<Rightarrow> nat \<Rightarrow> event list \<Rightarrow> callback \<times> event list"
  and scheduleRetry ::
    "(string \<Rightarrow> nat \<Rightarrow> read_outcome) \<Rightarrow> string \<Rightarrow> nat \<Rightarrow> event list \<Rightarrow> callback \<times> event list"
  where
  "pollForResults pages requestId attempt log =
     (if attempt > 60 then (OnError ''Timeout waiting for results'', log)
      else
        case pages requestId attempt of
          IOFailure msg \<Rightarrow> scheduleRetry pages requestId attempt (log @ [Get attempt])
        | HttpResponse code body \<Rightarrow>
            if isSuccessful code then (OnSuccess body, log @ [Get attempt])
            else if code = 404 then scheduleRetry pages requestId attempt (log @ [Get attempt])
            else (OnError (''HTTP '' @ dec code), log @ [Get attempt]))"
| "scheduleRetry pages requestId attempt log =
     pollForResults pages requestId (attempt + 1) (log @ [Delay 2000])"
  by pat_completeness auto
termination
  by (relation "measure (\<lambda>x. case x of
          Inl (pages, requestId, attempt, log) \<Rightarrow> 2 * (62 - attempt) + 1
        | Inr (pages, requestId, attempt, log) \<Rightarrow> 2 * (61 - attempt) + 2)") auto

declare pollForResults.simps [simp del]

definition reads :: "event list \<Rightarrow> nat" where
  "reads log = length (filter (\<lambda>ev. case ev of Get k \<Rightarrow> True | Delay d \<Rightarrow> False) log)"

text \<open>
  The outcomes after which \<open>pollForResults\<close> calls \<open>scheduleRetry\<close>: a transport
  failure, and the status 404.
\<close>

definition io_failure :: "read_outcome \<Rightarrow> bool" where
  "io_failure out = (case out of IOFailure msg \<Rightarrow> True | HttpResponse code body \<Rightarrow> False)"

definition not_found :: "read_outcome \<Rightarrow> bool" where
  "not_found out = (case out of IOFailure msg \<Rightarrow> False | HttpResponse code body \<Rightarrow> code = 404)"

definition retried :: "read_outcome \<Rightarrow> bool" where
  "retried out \<longleftrightarrow> io_failure out \<or> not_found out"

text \<open>The effects of the attempts \<open>a\<close> to \<open>b - 1\<close> when each of them is retried.\<close>

definition retries :: "nat \<Rightarrow> nat \<Rightarrow> event list" where
  "retries a b = concat (map (\<lambda>k. [Get k, Delay 2000]) [a..<b])"

section \<open>Concrete stores and feeds\<close>

text \<open>Small inputs on which the definitions are evaluated.\<close>

definition feed_item :: "string \<Rightarrow> string \<Rightarrow> episode" where
  "feed_item g u =
     \<lparr>ep_title = None, ep_url = Some u, ep_type = Some ''audio/mpeg'', ep_size = Some 0,
      ep_pubDate = None, ep_guid = (if g = [] then None else Some g), ep_duration = None,
      ep_description = None, ep_id = None, ep_podcastId = None, ep_isNew = None\<rparr>"

definition no_channel :: channel where
  "no_channel = \<lparr>ch_title = None, ch_author = None, ch_imageUrl = None, ch_description = None\<rparr>"

definition empty_store :: store where
  "empty_store =
     \<lparr>subscriptions = None, feeds = Map.empty, episodes = Map.empty, requests = Map.empty,
      request_log = [], search_cache = Map.empty, lookups = Map.empty, downloads = Map.empty,
      last_update = None\<rparr>"

definition demo_subscription :: subscription where
  "demo_subscription =
     \<lparr>sub_id = ''p1'', sub_title = ''Demo'', sub_author = [], sub_feedUrl = ''http://f'',
      sub_imageUrl = [], sub_description = [], sub_episodeCount = 3,
      sub_lastUpdated = ''t0'', sub_subscribedAt = ''t0''\<rparr>"

definition demo_store :: store where
  "demo_store = empty_store\<lparr>episodes := [''p1'' \<mapsto>
     \<lparr>el_success = True, el_podcastId = ''p1'', el_count = 3, el_lastUpdated = None,
      el_episodes = Some [feed_item ''g1'' ''u1'', feed_item ''g2'' ''u2'', feed_item ''g3'' ''u3'']\<rparr>]\<rparr>"

definition demo_fetch :: "string \<Rightarrow> fetch_outcome" where
  "demo_fetch u = Response 200 ''<rss/>''"

definition demo_parse :: "episode list \<Rightarrow> string \<Rightarrow> channel \<times> episode list" where
  "demo_parse items body = (no_channel, items)"

definition demo_feed :: "episode list" where
  "demo_feed = [feed_item ''g0'' ''u0'', feed_item ''g1'' ''u1'', feed_item ''g2'' ''u2'',
                feed_item ''g3'' ''u3'']"

definition demo_env :: env where
  "demo_env =
     \<lparr>ACTION = ''subscribe'', FEED_URL = ''http://f'', PODCAST_ID = ''p1'', PODCAST_TITLE = [],
      REQUEST_ID = ''r1'', QUERY = [], LIMIT = [], EPISODE_URL = [], EPISODE_ID = []\<rparr>"

text \<open>A stand-in for the digest, with the length of an MD5 digest in hexadecimal.\<close>

definition demo_md5 :: "string \<Rightarrow> string" where
  "demo_md5 u = ''00112233445566778899aabbccddeeff''"

text \<open>
  A network with one feed that has items, one that has none and one that is
  unreachable, and a registry with a subscription to each.
\<close>

definition demo_net :: "string \<Rightarrow> fetch_outcome" where
  "demo_net u =
     (if u = ''http://f'' then Response 200 ''<rss/>''
      else if u = ''http://empty'' then Response 200 ''<empty/>''
      else Rejected ''ECONNREFUSED'')"

definition demo_extract :: "string \<Rightarrow> channel \<times> episode list" where
  "demo_extract body = (if body = ''<rss/>'' then (no_channel, demo_feed) else (no_channel, []))"

definition demo_registry :: store where
  "demo_registry = demo_store\<lparr>subscriptions := Some
     [(''p1'', demo_subscription),
      (''p2'', demo_subscription\<lparr>sub_id := ''p2'', sub_feedUrl := ''http://down''\<rparr>),
      (''p3'', demo_subscription\<lparr>sub_id := ''p3'', sub_feedUrl := ''http://empty''\<rparr>)]\<rparr>"

definition demo_clock :: "nat \<Rightarrow> string" where
  "demo_clock k = (if k = 0 then ''c0'' else if k = 1 then ''c1'' else ''c2'')"

text \<open>
  A network on which \<open>http://moved\<close> answers 302 with a relative \<open>Location\<close> and
  \<open>http://secure\<close> answers 301 with an \<open>https\<close> one, the check of \<open>protocol.get\<close> for
  absolute URLs of the two protocols, and \<open>new URL(location, base)\<close> for these
  locations.
\<close>

definition demo_network :: "string \<Rightarrow> net_outcome" where
  "demo_network u =
     (if u = ''http://f'' then NetResponse 200 None (Some ''text/xml'') ''<rss/>''
      else if u = ''http://moved'' then NetResponse 302 (Some ''/feed.xml'') None []
      else if u = ''http://moved/feed.xml'' then NetResponse 200 None (Some ''audio/mpeg'') ''abc''
      else if u = ''http://secure'' then NetResponse 301 (Some ''https://secure/feed.xml'') None []
      else NetError ''ECONNREFUSED'')"

definition demo_get_throws :: "bool \<Rightarrow> string \<Rightarrow> string option" where
  "demo_get_throws secure u =
     (if take 7 u = ''http://'' then (if secure then Some ''Protocol not supported'' else None)
      else if take 8 u = ''https://'' then (if secure then None else Some ''Protocol not supported'')
      else Some ''Invalid URL'')"

definition demo_resolve_url :: "string \<Rightarrow> string \<Rightarrow> string option" where
  "demo_resolve_url location base =
     (if take 7 location = ''http://'' \<or> take 8 location = ''https://'' then Some location
      else if take 1 location = ''/'' then Some (base @ location)
      else None)"

definition demo_moved_registry :: store where
  "demo_moved_registry = demo_store\<lparr>subscriptions := Some
     [(''p1'', demo_subscription),
      (''p2'', demo_subscription\<lparr>sub_id := ''p2'', sub_feedUrl := ''http://moved''\<rparr>)]\<rparr>"

section \<open>What the protocol asks of a handler\<close>

text \<open>
  A result record for request \<open>rid\<close> carries that id, a timestamp and, when
  \<open>success\<close> is false, an error message. A handler that takes the store from \<open>s\<close> to
  \<open>s'\<close> has written exactly one result for \<open>rid\<close> when the only new write to
  \<open>data/requests\<close> is one at \<open>rid\<close>, holding such a record.
\<close>

definition well_formed_result :: "string \<Rightarrow> result_record \<Rightarrow> bool" where
  "well_formed_result rid r \<longleftrightarrow>
     rr_requestId r = Some rid \<and> rr_timestamp r \<noteq> None \<and> (rr_success r \<or> rr_error r \<noteq> None)"

definition writes_one_result :: "string \<Rightarrow> store \<Rightarrow> store \<Rightarrow> bool" where
  "writes_one_result rid s s' \<longleftrightarrow>
     request_log s' = request_log s @ [rid] \<and>
     (case requests s' rid of None \<Rightarrow> False | Some r \<Rightarrow> well_formed_result rid r)"

section \<open>Properties of the merge\<close>

lemma identity_tagNew: "identity (tagNew ms pid (i, ep)) = identity ep"
  by (simp add: identity_def tagNew_def)

lemma identity_tagKnown: "identity (tagKnown ep) = identity ep"
  by (simp add: identity_def tagKnown_def)

lemma map_identity_tagNew:
  "map (identity \<circ> tagNew ms pid) (enumerate n xs) = map identity xs"
  by (induction xs arbitrary: n) (simp_all add: identity_tagNew)

lemma map_identity_tagKnown: "map (identity \<circ> tagKnown) xs = map identity xs"
  by (simp add: identity_tagKnown)

lemma map_identity_allEpisodes:
  "map identity (allEpisodes ms pid new existing) = map identity new @ map identity existing"
  by (simp add: allEpisodes_def map_identity_tagNew map_identity_tagKnown)

lemma length_allEpisodes:
  "length (allEpisodes ms pid new existing) = length new + length existing"
  by (simp add: allEpisodes_def)

lemma set_identity_newEpisodes:
  "set (map identity (newEpisodes existing eps)) \<union> set (map identity existing)
     = set (map identity existing) \<union> set (map identity eps)"
  by (auto simp: newEpisodes_def existingGuids_def)

text \<open>The episode list stored for the subscription after a successful fetch.\<close>

lemma existingEpisodes_updateFeed:
  assumes "fetch (sub_feedUrl sub) = Response status body" and "ok status"
    and "parseRSS body = (chan, eps)"
  shows "existingEpisodes (fst (updateFeed fetch parseRSS now ms sub s)) (sub_id sub) =
           (if newEpisodes (existingEpisodes s (sub_id sub)) eps = []
            then existingEpisodes s (sub_id sub)
            else allEpisodes ms (sub_id sub)
                   (newEpisodes (existingEpisodes s (sub_id sub)) eps)
                   (existingEpisodes s (sub_id sub)))"
  using assms by (simp add: updateFeed_def Let_def existingEpisodes_def)

lemma result_updateFeed:
  assumes "fetch (sub_feedUrl sub) = Response status body" and "ok status"
    and "parseRSS body = (chan, eps)"
  shows "snd (updateFeed fetch parseRSS now ms sub s) =
           Updated (length (newEpisodes (existingEpisodes s (sub_id sub)) eps)) (length eps)"
  using assms by (simp add: updateFeed_def Let_def)

lemmas demo_defs = feed_item_def no_channel_def empty_store_def demo_subscription_def
  demo_store_def demo_fetch_def demo_parse_def demo_feed_def demo_env_def demo_md5_def
  demo_net_def demo_extract_def demo_registry_def demo_clock_def demo_network_def
  demo_get_throws_def demo_resolve_url_def demo_moved_registry_def

lemmas sync_defs = updateFeed_def existingEpisodes_def newEpisodes_def existingGuids_def
  identity_def js_or_def js_or_str_def ok_def allEpisodes_def tagNew_def tagKnown_def Let_def

text \<open>
  Claim C1. After a successful fetch of a feed \<open>F\<close>, the episode list stored for the
  subscription is the new items of \<open>F\<close> (identity key, \<open>guid\<close> else \<open>url\<close>, not
  among the identities of the prior list \<open>L\<close>) in source order, followed by \<open>L\<close>.
  The new items carry the annotations \<open>id\<close>, \<open>podcastId\<close>, \<open>isNew\<close>; the episodes of
  \<open>L\<close> keep their order and every property but the annotation \<open>isNew\<close>. Hence the
  identities of the merged list are those of \<open>L\<close> and of \<open>F\<close>, its length is that of
  \<open>L\<close> plus the number of new items, and no identity of \<open>L\<close> is dropped.
\<close>

theorem merge_prepends_new:
  assumes "fetch (sub_feedUrl sub) = Response status body" and "ok status"
    and "parseRSS body = (chan, F)"
    and "L = existingEpisodes s (sub_id sub)"
    and "new = newEpisodes L F"
    and "merged = existingEpisodes (fst (updateFeed fetch parseRSS now ms sub s)) (sub_id sub)"
  shows "merged = (if new = [] then L
                   else map (tagNew ms (sub_id sub)) (enumerate 0 new) @ map tagKnown L)
       \<and> map identity merged = map identity new @ map identity L
       \<and> map (\<lambda>ep. ep\<lparr>ep_isNew := None\<rparr>) (drop (length new) merged)
           = map (\<lambda>ep. ep\<lparr>ep_isNew := None\<rparr>) L
       \<and> set (map identity merged) = set (map identity L) \<union> set (map identity F)
       \<and> length merged = length L + length new
       \<and> set (map identity L) \<subseteq> set (map identity merged)"
proof -
  have m: "merged = (if new = [] then L else allEpisodes ms (sub_id sub) new L)"
    using assms existingEpisodes_updateFeed [of fetch sub status body parseRSS chan F now ms s]
    by simp
  have ids: "map identity merged = map identity new @ map identity L"
    using m by (simp add: map_identity_allEpisodes)
  have untouched: "map (\<lambda>ep. ep\<lparr>ep_isNew := None\<rparr>) (drop (length new) merged)
           = map (\<lambda>ep. ep\<lparr>ep_isNew := None\<rparr>) L"
    using m by (simp add: allEpisodes_def tagKnown_def comp_def)
  have "set (map identity merged) = set (map identity new) \<union> set (map identity L)"
    using ids by (metis set_append)
  then have un: "set (map identity merged) = set (map identity L) \<union> set (map identity F)"
    using set_identity_newEpisodes [of L F] assms(5) by simp
  have len: "length merged = length L + length new"
    using m by (simp add: length_allEpisodes)
  show ?thesis using m ids untouched un len by (simp add: allEpisodes_def)
qed

theorem merge_prepends_new_witness:
  "demo_fetch (sub_feedUrl demo_subscription) = Response 200 ''<rss/>'' \<and> ok 200
   \<and> map identity (existingEpisodes demo_store ''p1'') = [Some ''g1'', Some ''g2'', Some ''g3'']
   \<and> map identity (newEpisodes (existingEpisodes demo_store ''p1'') demo_feed) = [Some ''g0'']
   \<and> map identity (existingEpisodes (fst (updateFeed demo_fetch (demo_parse demo_feed) ''t1''
          (\<lambda>i. 1000) demo_subscription demo_store)) ''p1'')
       = [Some ''g0'', Some ''g1'', Some ''g2'', Some ''g3'']
   \<and> length (existingEpisodes (fst (updateFeed demo_fetch (demo_parse demo_feed) ''t1''
          (\<lambda>i. 1000) demo_subscription demo_store)) ''p1'') = 3 + 1"
proof -
  have a: "demo_fetch (sub_feedUrl demo_subscription) = Response 200 ''<rss/>''"
    by (simp add: demo_fetch_def)
  have b: "ok 200" by (simp add: ok_def)
  have c: "demo_parse demo_feed ''<rss/>'' = (no_channel, demo_feed)"
    by (simp add: demo_parse_def)
  have p: "sub_id demo_subscription = ''p1''" by (simp add: demo_subscription_def)
  have l: "map identity (existingEpisodes demo_store ''p1'') = [Some ''g1'', Some ''g2'', Some ''g3'']"
    by (simp add: demo_defs existingEpisodes_def identity_def js_or_def)
  have n: "map identity (newEpisodes (existingEpisodes demo_store ''p1'') demo_feed) = [Some ''g0'']"
    by (simp add: demo_defs existingEpisodes_def newEpisodes_def existingGuids_def identity_def js_or_def)
  have ln: "length (existingEpisodes demo_store ''p1'') = 3"
    "length (newEpisodes (existingEpisodes demo_store ''p1'') demo_feed) = 1"
    using l n by (metis length_map length_Cons list.size(3) One_nat_def numeral_3_eq_3)+
  note t = merge_prepends_new [where fetch = demo_fetch and sub = demo_subscription
        and parseRSS = "demo_parse demo_feed" and s = demo_store and now = "''t1''"
        and ms = "\<lambda>i. 1000", OF a b c refl refl refl, unfolded p]
  from t [THEN conjunct2, THEN conjunct1] have ids: "map identity (existingEpisodes (fst (updateFeed demo_fetch (demo_parse demo_feed) ''t1''
          (\<lambda>i. 1000) demo_subscription demo_store)) ''p1'')
       = [Some ''g0'', Some ''g1'', Some ''g2'', Some ''g3'']"
    using l n by simp
  from t [THEN conjunct2, THEN conjunct2, THEN conjunct2, THEN conjunct2, THEN conjunct1]
  have len: "length (existingEpisodes (fst (updateFeed demo_fetch (demo_parse demo_feed) ''t1''
          (\<lambda>i. 1000) demo_subscription demo_store)) ''p1'') = 3 + 1"
    using ln by simp
  show ?thesis using a b l n ids len by simp
qed

subsection \<open>A feed with nothing new\<close>

lemma newEpisodes_Nil_iff:
  "newEpisodes L F = [] \<longleftrightarrow> set (map identity F) \<subseteq> set (map identity L)"
  by (auto simp: newEpisodes_def existingGuids_def filter_empty_conv)

lemma updateFeed_no_new:
  assumes "fetch (sub_feedUrl sub) = Response status body" and "ok status"
    and "parseRSS body = (chan, F)"
    and "newEpisodes (existingEpisodes s (sub_id sub)) F = []"
  shows "snd (updateFeed fetch parseRSS now ms sub s) = Updated 0 (length F)"
    and "episodes (fst (updateFeed fetch parseRSS now ms sub s)) = episodes s"
  using assms by (simp_all add: updateFeed_def Let_def)

lemma existingEpisodes_cong:
  "episodes s' = episodes s \<Longrightarrow> existingEpisodes s' pid = existingEpisodes s pid"
  by (simp add: existingEpisodes_def)

lemma newEpisodes_after_merge:
  assumes "fetch (sub_feedUrl sub) = Response status body" and "ok status"
    and "parseRSS body = (chan, F)"
  shows "newEpisodes (existingEpisodes (fst (updateFeed fetch parseRSS now ms sub s)) (sub_id sub)) F = []"
proof -
  let ?L = "existingEpisodes s (sub_id sub)"
  let ?M = "existingEpisodes (fst (updateFeed fetch parseRSS now ms sub s)) (sub_id sub)"
  have "map identity ?M = map identity (newEpisodes ?L F) @ map identity ?L"
    using existingEpisodes_updateFeed [of fetch sub status body parseRSS chan F now ms s] assms
    by (simp add: map_identity_allEpisodes)
  then have "set (map identity ?M) = set (map identity (newEpisodes ?L F)) \<union> set (map identity ?L)"
    by (metis set_append)
  then have "set (map identity F) \<subseteq> set (map identity ?M)"
    using set_identity_newEpisodes [of ?L F] by simp
  then show ?thesis by (simp only: newEpisodes_Nil_iff)
qed

text \<open>
  Claim C5. After a successful fetch whose items are all known (their identities are
  among those of the prior list), or that has no items, \<open>updateFeed\<close> reports
  \<open>newEpisodes = 0\<close> as an update, not an error, and leaves every stored episode
  list as it was. In particular a second run on the feed that the first run merged
  finds nothing new and changes no list.
\<close>

theorem unchanged_feed_changes_nothing:
  assumes "fetch (sub_feedUrl sub) = Response status body" and "ok status"
    and "parseRSS body = (chan, F)"
  shows "(F = [] \<or> set (map identity F) \<subseteq> set (map identity (existingEpisodes s (sub_id sub)))
          \<longrightarrow> snd (updateFeed fetch parseRSS now ms sub s) = Updated 0 (length F)
            \<and> episodes (fst (updateFeed fetch parseRSS now ms sub s)) = episodes s
            \<and> existingEpisodes (fst (updateFeed fetch parseRSS now ms sub s)) (sub_id sub)
                = existingEpisodes s (sub_id sub))
       \<and> (let s1 = fst (updateFeed fetch parseRSS now ms sub s) in
            snd (updateFeed fetch parseRSS now' ms' sub s1) = Updated 0 (length F)
            \<and> episodes (fst (updateFeed fetch parseRSS now' ms' sub s1)) = episodes s1
            \<and> existingEpisodes (fst (updateFeed fetch parseRSS now' ms' sub s1)) (sub_id sub)
                = existingEpisodes s1 (sub_id sub))"
proof -
  have first: "snd (updateFeed fetch parseRSS now ms sub s) = Updated 0 (length F)
            \<and> episodes (fst (updateFeed fetch parseRSS now ms sub s)) = episodes s
            \<and> existingEpisodes (fst (updateFeed fetch parseRSS now ms sub s)) (sub_id sub)
                = existingEpisodes s (sub_id sub)"
    if "F = [] \<or> set (map identity F) \<subseteq> set (map identity (existingEpisodes s (sub_id sub)))"
  proof -
    from that have "set (map identity F) \<subseteq> set (map identity (existingEpisodes s (sub_id sub)))"
      by auto
    then have none: "newEpisodes (existingEpisodes s (sub_id sub)) F = []"
      by (simp only: newEpisodes_Nil_iff)
    show ?thesis
      using assms none updateFeed_no_new [of fetch sub status body parseRSS chan F s now ms]
        existingEpisodes_cong [of "fst (updateFeed fetch parseRSS now ms sub s)" s "sub_id sub"]
      by simp
  qed
  define s1 where "s1 = fst (updateFeed fetch parseRSS now ms sub s)"
  have none1: "newEpisodes (existingEpisodes s1 (sub_id sub)) F = []"
    unfolding s1_def
    using assms newEpisodes_after_merge [of fetch sub status body parseRSS chan F now ms s]
    by simp
  have second: "snd (updateFeed fetch parseRSS now' ms' sub s1) = Updated 0 (length F)
            \<and> episodes (fst (updateFeed fetch parseRSS now' ms' sub s1)) = episodes s1
            \<and> existingEpisodes (fst (updateFeed fetch parseRSS now' ms' sub s1)) (sub_id sub)
                = existingEpisodes s1 (sub_id sub)"
    using assms none1 updateFeed_no_new [of fetch sub status body parseRSS chan F s1 now' ms']
      existingEpisodes_cong [of "fst (updateFeed fetch parseRSS now' ms' sub s1)" s1 "sub_id sub"]
    by simp
  show ?thesis using first second by (simp add: s1_def Let_def)
qed

theorem unchanged_feed_changes_nothing_witness:
  "set (map identity [feed_item ''g2'' ''u2'', feed_item ''g1'' ''u1''])
      \<subseteq> set (map identity (existingEpisodes demo_store ''p1''))
   \<and> snd (updateFeed demo_fetch (demo_parse [feed_item ''g2'' ''u2'', feed_item ''g1'' ''u1''])
            ''t1'' (\<lambda>i. 1000) demo_subscription demo_store) = Updated 0 2
   \<and> episodes (fst (updateFeed demo_fetch (demo_parse [feed_item ''g2'' ''u2'', feed_item ''g1'' ''u1''])
            ''t1'' (\<lambda>i. 1000) demo_subscription demo_store)) = episodes demo_store
   \<and> snd (updateFeed demo_fetch (demo_parse [feed_item ''g2'' ''u2'', feed_item ''g1'' ''u1''])
            ''t2'' (\<lambda>i. 2000) demo_subscription
            (fst (updateFeed demo_fetch (demo_parse [feed_item ''g2'' ''u2'', feed_item ''g1'' ''u1''])
                    ''t1'' (\<lambda>i. 1000) demo_subscription demo_store))) = Updated 0 2"
proof -
  let ?F = "[feed_item ''g2'' ''u2'', feed_item ''g1'' ''u1'']"
  have a: "demo_fetch (sub_feedUrl demo_subscription) = Response 200 ''<rss/>''"
    by (simp add: demo_fetch_def)
  have b: "ok 200" by (simp add: ok_def)
  have c: "demo_parse ?F ''<rss/>'' = (no_channel, ?F)"
    by (simp add: demo_parse_def)
  have p: "sub_id demo_subscription = ''p1''" by (simp add: demo_subscription_def)
  have sub: "set (map identity ?F) \<subseteq> set (map identity (existingEpisodes demo_store ''p1''))"
    by (simp add: demo_defs existingEpisodes_def identity_def js_or_def)
  note t = unchanged_feed_changes_nothing [where fetch = demo_fetch and sub = demo_subscription
        and parseRSS = "demo_parse ?F" and s = demo_store and now = "''t1''"
        and ms = "\<lambda>i. 1000" and now' = "''t2''" and ms' = "\<lambda>i. 2000", OF a b c, unfolded p]
  from t [THEN conjunct1] sub
  have one: "snd (updateFeed demo_fetch (demo_parse ?F) ''t1'' (\<lambda>i. 1000) demo_subscription demo_store)
               = Updated 0 2
           \<and> episodes (fst (updateFeed demo_fetch (demo_parse ?F) ''t1'' (\<lambda>i. 1000)
               demo_subscription demo_store)) = episodes demo_store"
    by simp
  from t [THEN conjunct2]
  have two: "snd (updateFeed demo_fetch (demo_parse ?F) ''t2'' (\<lambda>i. 2000) demo_subscription
            (fst (updateFeed demo_fetch (demo_parse ?F) ''t1'' (\<lambda>i. 1000) demo_subscription
                    demo_store))) = Updated 0 2"
    by (simp add: Let_def)
  show ?thesis using sub one two by simp
qed

subsection \<open>Items of one feed with the same identity\<close>

text \<open>
  Claim C8 fails: a feed with two items of the same identity \<open>g\<close>, both new, gives
  \<open>newEpisodes = 2\<close>, and the stored list holds both, the first occurrence first.
\<close>

theorem duplicate_identities_counted_twice:
  "snd (updateFeed demo_fetch (demo_parse [feed_item ''g'' ''u1'', feed_item ''g'' ''u2''])
          ''t1'' (\<lambda>i. 1000) demo_subscription empty_store) = Updated 2 2
   \<and> map ep_url (existingEpisodes (fst (updateFeed demo_fetch
          (demo_parse [feed_item ''g'' ''u1'', feed_item ''g'' ''u2''])
          ''t1'' (\<lambda>i. 1000) demo_subscription empty_store)) ''p1'') = [Some ''u1'', Some ''u2'']
   \<and> map identity (existingEpisodes (fst (updateFeed demo_fetch
          (demo_parse [feed_item ''g'' ''u1'', feed_item ''g'' ''u2''])
          ''t1'' (\<lambda>i. 1000) demo_subscription empty_store)) ''p1'') = [Some ''g'', Some ''g'']"
  by (simp add: demo_defs sync_defs)

lemma erase_tagNew:
  "(tagNew ms pid (i, ep))\<lparr>ep_id := None, ep_podcastId := None, ep_isNew := None\<rparr>
     = ep\<lparr>ep_id := None, ep_podcastId := None, ep_isNew := None\<rparr>"
  by (simp add: tagNew_def)

lemma erase_tagKnown:
  "(tagKnown ep)\<lparr>ep_id := None, ep_podcastId := None, ep_isNew := None\<rparr>
     = ep\<lparr>ep_id := None, ep_podcastId := None, ep_isNew := None\<rparr>"
  by (simp add: tagKnown_def)

lemma map_erase_tagNew:
  "map (\<lambda>ep. ep\<lparr>ep_id := None, ep_podcastId := None, ep_isNew := None\<rparr>)
       (map (tagNew ms pid) (enumerate n xs))
     = map (\<lambda>ep. ep\<lparr>ep_id := None, ep_podcastId := None, ep_isNew := None\<rparr>) xs"
  by (induction xs arbitrary: n) (simp_all add: erase_tagNew)

lemma map_erase_allEpisodes:
  "map (\<lambda>ep. ep\<lparr>ep_id := None, ep_podcastId := None, ep_isNew := None\<rparr>)
       (allEpisodes ms pid new L)
     = map (\<lambda>ep. ep\<lparr>ep_id := None, ep_podcastId := None, ep_isNew := None\<rparr>) (new @ L)"
proof -
  have "map (\<lambda>ep. ep\<lparr>ep_id := None, ep_podcastId := None, ep_isNew := None\<rparr>) (map tagKnown L)
      = map (\<lambda>ep. ep\<lparr>ep_id := None, ep_podcastId := None, ep_isNew := None\<rparr>) L"
    by (induction L) (simp_all add: erase_tagKnown)
  then show ?thesis
    unfolding allEpisodes_def map_append map_erase_tagNew by simp
qed

text \<open>
  Claim C8, amended. The fetched items are not deduplicated among themselves: every
  item whose identity is not in the prior list is new, counted by \<open>newEpisodes\<close> and
  stored with its own content, in source order; an identity that is not in the prior
  list occurs in the merged list as often as in the feed.
\<close>

theorem duplicates_all_kept:
  assumes "fetch (sub_feedUrl sub) = Response status body" and "ok status"
    and "parseRSS body = (chan, F)"
    and "L = existingEpisodes s (sub_id sub)"
    and "merged = existingEpisodes (fst (updateFeed fetch parseRSS now ms sub s)) (sub_id sub)"
  shows "snd (updateFeed fetch parseRSS now ms sub s)
           = Updated (length (filter (\<lambda>ep. identity ep \<notin> set (map identity L)) F)) (length F)
       \<and> map (\<lambda>ep. ep\<lparr>ep_id := None, ep_podcastId := None, ep_isNew := None\<rparr>) merged
           = map (\<lambda>ep. ep\<lparr>ep_id := None, ep_podcastId := None, ep_isNew := None\<rparr>)
               (filter (\<lambda>ep. identity ep \<notin> set (map identity L)) F @ L)
       \<and> (\<forall>key. key \<notin> set (map identity L) \<longrightarrow>
             length (filter (\<lambda>ep. identity ep = key) merged)
               = length (filter (\<lambda>ep. identity ep = key) F))"
proof -
  let ?new = "filter (\<lambda>ep. identity ep \<notin> set (map identity L)) F"
  have new: "newEpisodes L F = ?new"
    by (simp add: newEpisodes_def existingGuids_def)
  have count: "snd (updateFeed fetch parseRSS now ms sub s) = Updated (length ?new) (length F)"
    using assms result_updateFeed [of fetch sub status body parseRSS chan F now ms s] new
    by simp
  have m: "merged = (if ?new = [] then L else allEpisodes ms (sub_id sub) ?new L)"
    using assms existingEpisodes_updateFeed [of fetch sub status body parseRSS chan F now ms s] new
    by simp
  have content: "map (\<lambda>ep. ep\<lparr>ep_id := None, ep_podcastId := None, ep_isNew := None\<rparr>) merged
           = map (\<lambda>ep. ep\<lparr>ep_id := None, ep_podcastId := None, ep_isNew := None\<rparr>) (?new @ L)"
  proof (cases "?new = []")
    case True
    then show ?thesis using m by simp
  next
    case False
    then have "merged = allEpisodes ms (sub_id sub) ?new L" using m by simp
    then show ?thesis by (simp only: map_erase_allEpisodes)
  qed
  have ids: "map identity merged = map identity ?new @ map identity L"
    using m by (simp add: map_identity_allEpisodes)
  have occ: "length (filter (\<lambda>ep. identity ep = key) merged)
               = length (filter (\<lambda>ep. identity ep = key) F)"
    if "key \<notin> set (map identity L)" for key
  proof -
    have "length (filter (\<lambda>ep. identity ep = key) merged)
            = length (filter (\<lambda>k. k = key) (map identity merged))"
      by (simp add: filter_map comp_def)
    also have "\<dots> = length (filter (\<lambda>k. k = key) (map identity ?new))
                    + length (filter (\<lambda>k. k = key) (map identity L))"
      by (simp add: ids)
    also have "length (filter (\<lambda>k. k = key) (map identity L)) = 0"
      using that by (auto simp: filter_empty_conv)
    also have "length (filter (\<lambda>k. k = key) (map identity ?new)) + 0
                 = length (filter (\<lambda>ep. identity ep \<notin> set (map identity L) \<and> identity ep = key) F)"
      by (simp add: filter_map comp_def)
    also have "(\<lambda>ep. identity ep \<notin> set (map identity L) \<and> identity ep = key)
                 = (\<lambda>ep. identity ep = key)"
      using that by auto
    finally show ?thesis .
  qed
  show ?thesis using count content occ by blast
qed

theorem duplicates_all_kept_witness:
  "Some ''g'' \<notin> set (map identity (existingEpisodes empty_store ''p1''))
   \<and> snd (updateFeed demo_fetch (demo_parse [feed_item ''g'' ''u1'', feed_item ''g'' ''u2''])
            ''t1'' (\<lambda>i. 1000) demo_subscription empty_store) = Updated 2 2
   \<and> length (filter (\<lambda>ep. identity ep = Some ''g'')
        (existingEpisodes (fst (updateFeed demo_fetch
            (demo_parse [feed_item ''g'' ''u1'', feed_item ''g'' ''u2''])
            ''t1'' (\<lambda>i. 1000) demo_subscription empty_store)) ''p1'')) = 2"
proof -
  let ?F = "[feed_item ''g'' ''u1'', feed_item ''g'' ''u2'']"
  have a: "demo_fetch (sub_feedUrl demo_subscription) = Response 200 ''<rss/>''"
    by (simp add: demo_fetch_def)
  have b: "ok 200" by (simp add: ok_def)
  have c: "demo_parse ?F ''<rss/>'' = (no_channel, ?F)"
    by (simp add: demo_parse_def)
  have p: "sub_id demo_subscription = ''p1''" by (simp add: demo_subscription_def)
  have l: "existingEpisodes empty_store ''p1'' = []"
    by (simp add: empty_store_def existingEpisodes_def)
  have fresh: "Some ''g'' \<notin> set (map identity (existingEpisodes empty_store ''p1''))"
    by (simp add: l)
  have ids: "map identity ?F = [Some ''g'', Some ''g'']"
    by (simp add: feed_item_def identity_def js_or_def)
  note t = duplicates_all_kept [where fetch = demo_fetch and sub = demo_subscription
        and parseRSS = "demo_parse ?F" and s = empty_store and now = "''t1''"
        and ms = "\<lambda>i. 1000", OF a b c refl refl, unfolded p l]
  from t [THEN conjunct1]
  have one: "snd (updateFeed demo_fetch (demo_parse ?F) ''t1'' (\<lambda>i. 1000) demo_subscription
               empty_store) = Updated 2 2"
    by simp
  have "length (filter (\<lambda>ep. identity ep = Some ''g'') ?F) = 2"
    by (simp add: feed_item_def identity_def js_or_def)
  with t [THEN conjunct2, THEN conjunct2]
  have two: "length (filter (\<lambda>ep. identity ep = Some ''g'')
        (existingEpisodes (fst (updateFeed demo_fetch (demo_parse ?F)
            ''t1'' (\<lambda>i. 1000) demo_subscription empty_store)) ''p1'')) = 2"
    by simp
  show ?thesis using fresh one two by simp
qed

section \<open>Identifiers of stored episodes\<close>

lemma digit_inj: "a < 10 \<Longrightarrow> b < 10 \<Longrightarrow> digit a = digit b \<Longrightarrow> a = b"
  unfolding digit_def using nth_eq_iff_index_eq [of "''0123456789''" a b] by simp

lemma digit_not_dash: "d < 10 \<Longrightarrow> digit d \<noteq> CHR ''-''"
proof -
  assume "d < 10"
  then have "digit d \<in> set ''0123456789''"
    unfolding digit_def by (intro nth_mem) simp
  then show ?thesis by auto
qed

lemma dec_nonempty: "dec n \<noteq> []"
  by (subst dec.simps) simp

lemma dec_inj: "dec m = dec n \<Longrightarrow> m = n"
proof (induction m arbitrary: n rule: dec.induct)
  case (1 m)
  show ?case
  proof (cases "m < 10")
    case small: True
    then have m: "dec m = [digit m]" by (subst dec.simps) simp
    show ?thesis
    proof (cases "n < 10")
      case True
      then have "dec n = [digit n]" by (subst dec.simps) simp
      with m "1.prems" have "digit m = digit n" by simp
      with small True show ?thesis by (rule digit_inj)
    next
      case False
      then have "dec n = dec (n div 10) @ [digit (n mod 10)]" by (subst dec.simps) simp
      with m "1.prems" have "dec (n div 10) = []" by simp
      then show ?thesis by (simp add: dec_nonempty)
    qed
  next
    case big: False
    then have m: "dec m = dec (m div 10) @ [digit (m mod 10)]" by (subst dec.simps) simp
    show ?thesis
    proof (cases "n < 10")
      case True
      then have "dec n = [digit n]" by (subst dec.simps) simp
      with m "1.prems" have "dec (m div 10) = []" by simp
      then show ?thesis by (simp add: dec_nonempty)
    next
      case False
      then have "dec n = dec (n div 10) @ [digit (n mod 10)]" by (subst dec.simps) simp
      with m "1.prems" have eq: "dec (m div 10) = dec (n div 10)"
        and d: "digit (m mod 10) = digit (n mod 10)" by simp_all
      from "1.IH" [OF big eq] have q: "m div 10 = n div 10" .
      from d have r: "m mod 10 = n mod 10" by (intro digit_inj) simp_all
      from q r show ?thesis by (metis div_mult_mod_eq)
    qed
  qed
qed

lemma dec_no_dash: "CHR ''-'' \<notin> set (dec n)"
proof (induction n rule: dec.induct)
  case (1 n)
  show ?case
  proof (cases "n < 10")
    case True
    then have "digit n \<noteq> CHR ''-''" by (rule digit_not_dash)
    then show ?thesis using True by (subst dec.simps) auto
  next
    case False
    with "1.IH" have "CHR ''-'' \<notin> set (dec (n div 10))" by simp
    moreover have "digit (n mod 10) \<noteq> CHR ''-''" by (rule digit_not_dash) simp
    ultimately show ?thesis using False by (subst dec.simps) auto
  qed
qed

lemma new_placeholder_inj: "new_placeholder ms i = new_placeholder ms j \<Longrightarrow> i = j"
proof -
  assume "new_placeholder ms i = new_placeholder ms j"
  then have "dec (ms i) @ CHR ''-'' # dec i = dec (ms j) @ CHR ''-'' # dec j"
    by (simp add: new_placeholder_def)
  then have "dec i = dec j"
    using append_Cons_eq_iff [of "CHR ''-''" "dec (ms i)" "dec i" "dec (ms j)" "dec j"]
    by (simp add: dec_no_dash)
  then show ?thesis by (rule dec_inj)
qed

lemma ep_placeholder_inj: "ep_placeholder i = ep_placeholder j \<Longrightarrow> i = j"
  by (simp add: ep_placeholder_def dec_inj)

lemmas subscribe_defs = subscribe_main_def subscribe_def unsubscribe_def podcastId_of_def
  generatePodcastId_def loaded_subscriptions_def write_request_def REQUEST_ID_of_def
  ACTION_of_def no_result_def tagSubscribed_def ep_placeholder_def

text \<open>
  Claim C7 fails for the first sync: the list that the subscribe handler stores has
  no \<open>isNew\<close> property on its episodes.
\<close>

theorem first_sync_sets_no_isNew:
  "map ep_isNew (existingEpisodes (fst (subscribe_main demo_md5 demo_fetch
       (demo_parse [feed_item ''g1'' ''u1'']) ''t0'' 0 demo_env empty_store)) ''p1'') = [None]
   \<and> map ep_id (existingEpisodes (fst (subscribe_main demo_md5 demo_fetch
       (demo_parse [feed_item ''g1'' ''u1'']) ''t0'' 0 demo_env empty_store)) ''p1'') = [Some ''g1'']"
  by (simp add: demo_defs subscribe_defs sync_defs)

lemma subscribe_Inr:
  assumes "subscribe md5hex fetch parseRSS now e s = Inr (s', r)"
    and "fetch (FEED_URL e) = Response status body" and "parseRSS body = (chan, F)"
  shows "FEED_URL e \<noteq> []" and "ok status"
    and "subscriptions s' = Some (AList.update (podcastId_of md5hex e)
           \<lparr>sub_id = podcastId_of md5hex e,
            sub_title = js_or_str (js_or (Some (PODCAST_TITLE e)) (ch_title chan)) ''Unknown'',
            sub_author = js_or_str (ch_author chan) [],
            sub_feedUrl = FEED_URL e,
            sub_imageUrl = js_or_str (ch_imageUrl chan) [],
            sub_description = js_or_str (ch_description chan) [],
            sub_episodeCount = length F,
            sub_lastUpdated = now,
            sub_subscribedAt =
              (case map_of (loaded_subscriptions s) (podcastId_of md5hex e) of
                 None \<Rightarrow> now
               | Some old \<Rightarrow> if sub_subscribedAt old \<noteq> [] then sub_subscribedAt old else now)\<rparr>
           (loaded_subscriptions s))"
    and "existingEpisodes s' (podcastId_of md5hex e)
           = map (tagSubscribed (podcastId_of md5hex e)) (enumerate 0 F)"
    and "rr_podcastId r = Some (podcastId_of md5hex e)"
  using assms
  by (auto simp: subscribe_def Let_def existingEpisodes_def no_result_def split: if_splits)

lemma subscribe_Inr_fetch:
  assumes "subscribe md5hex fetch parseRSS now e s = Inr (s', r)"
  shows "\<exists>status body. fetch (FEED_URL e) = Response status body"
  using assms
  by (cases "fetch (FEED_URL e)") (auto simp: subscribe_def Let_def split: if_splits)

text \<open>
  Claim C7, amended. A refresh by \<open>updateFeed\<close> that finds at least one new item
  stores each new item with \<open>id\<close> its \<open>guid\<close>, else the placeholder
  \<open>new-<clock>-<index>\<close> (distinct indices give distinct placeholders), with the
  \<open>podcastId\<close> and with \<open>isNew = true\<close>, and stores every prior item after them with
  \<open>isNew = false\<close>. The first sync by \<open>subscribe\<close> stores every fetched item with
  \<open>id\<close> its \<open>guid\<close>, else the placeholder \<open>ep-<index>\<close> (distinct for distinct
  indices), and with the \<open>podcastId\<close>; it leaves \<open>isNew\<close> as extracted.
\<close>

theorem new_items_tagged:
  assumes "fetch (sub_feedUrl sub) = Response status body" and "ok status"
    and "parseRSS body = (chan, F)"
    and "L = existingEpisodes s (sub_id sub)"
    and "new = newEpisodes L F" and "new \<noteq> []"
    and "merged = existingEpisodes (fst (updateFeed fetch parseRSS now ms sub s)) (sub_id sub)"
    and "subscribe md5hex fetch' parseRSS' now' e s0 = Inr (s', r)"
    and "fetch' (FEED_URL e) = Response status' body'" and "parseRSS' body' = (chan', F')"
    and "stored = existingEpisodes s' (podcastId_of md5hex e)"
  shows "(\<forall>i<length new.
            ep_id (merged ! i) = Some (js_or_str (ep_guid (new ! i)) (new_placeholder ms i))
          \<and> ep_podcastId (merged ! i) = Some (sub_id sub)
          \<and> ep_isNew (merged ! i) = Some True)
       \<and> (\<forall>j<length L. ep_isNew (merged ! (length new + j)) = Some False)
       \<and> (\<forall>i j. i \<noteq> j \<longrightarrow> new_placeholder ms i \<noteq> new_placeholder ms j)
       \<and> length stored = length F'
       \<and> (\<forall>i<length F'.
            ep_id (stored ! i) = Some (js_or_str (ep_guid (F' ! i)) (ep_placeholder i))
          \<and> ep_podcastId (stored ! i) = Some (podcastId_of md5hex e)
          \<and> ep_isNew (stored ! i) = ep_isNew (F' ! i))
       \<and> (\<forall>i j. i \<noteq> j \<longrightarrow> ep_placeholder i \<noteq> ep_placeholder j)"
proof -
  have m: "merged = map (tagNew ms (sub_id sub)) (enumerate 0 new) @ map tagKnown L"
    using assms(1-7) existingEpisodes_updateFeed [of fetch sub status body parseRSS chan F now ms s]
    by (simp add: allEpisodes_def)
  have fresh: "ep_id (merged ! i) = Some (js_or_str (ep_guid (new ! i)) (new_placeholder ms i))
          \<and> ep_podcastId (merged ! i) = Some (sub_id sub)
          \<and> ep_isNew (merged ! i) = Some True" if "i < length new" for i
    using that by (simp add: m nth_append nth_enumerate_eq tagNew_def)
  have known: "ep_isNew (merged ! (length new + j)) = Some False" if "j < length L" for j
    using that by (simp add: m nth_append tagKnown_def)
  have st: "stored = map (tagSubscribed (podcastId_of md5hex e)) (enumerate 0 F')"
    using subscribe_Inr(4) [of md5hex fetch' parseRSS' now' e s0 s' r status' body' chan' F']
      assms(8-11) by simp
  have first: "ep_id (stored ! i) = Some (js_or_str (ep_guid (F' ! i)) (ep_placeholder i))
          \<and> ep_podcastId (stored ! i) = Some (podcastId_of md5hex e)
          \<and> ep_isNew (stored ! i) = ep_isNew (F' ! i)" if "i < length F'" for i
    using that by (simp add: st nth_enumerate_eq tagSubscribed_def)
  have len: "length stored = length F'" by (simp add: st)
  show ?thesis
    using fresh known first len new_placeholder_inj ep_placeholder_inj by blast
qed

theorem new_items_tagged_witness:
  "(let merged = existingEpisodes (fst (updateFeed demo_fetch
        (demo_parse [feed_item [] ''u9'', feed_item ''g1'' ''u1'']) ''t1'' (\<lambda>i. 1000)
        demo_subscription demo_store)) ''p1''
    in ep_id (merged ! 0) = Some ''new-1000-0'' \<and> ep_isNew (merged ! 0) = Some True
       \<and> ep_isNew (merged ! 1) = Some False \<and> ep_isNew (merged ! 3) = Some False)
   \<and> new_placeholder (\<lambda>i. 1000) 0 \<noteq> new_placeholder (\<lambda>i. 1000) 1
   \<and> (case subscribe demo_md5 demo_fetch (demo_parse [feed_item [] ''u9'', feed_item ''g1'' ''u1''])
              ''t0'' demo_env empty_store of
         Inl msg \<Rightarrow> False
       | Inr (s', r) \<Rightarrow>
           ep_id (existingEpisodes s' ''p1'' ! 0) = Some ''ep-0''
           \<and> ep_id (existingEpisodes s' ''p1'' ! 1) = Some ''g1''
           \<and> ep_isNew (existingEpisodes s' ''p1'' ! 0) = None)"
proof -
  let ?F = "[feed_item [] ''u9'', feed_item ''g1'' ''u1'']"
  let ?M = "existingEpisodes (fst (updateFeed demo_fetch (demo_parse ?F) ''t1'' (\<lambda>i. 1000)
        demo_subscription demo_store)) ''p1''"
  have a: "demo_fetch (sub_feedUrl demo_subscription) = Response 200 ''<rss/>''"
    by (simp add: demo_fetch_def)
  have a': "demo_fetch (FEED_URL demo_env) = Response 200 ''<rss/>''"
    by (simp add: demo_fetch_def)
  have b: "ok 200" by (simp add: ok_def)
  have c: "demo_parse ?F ''<rss/>'' = (no_channel, ?F)"
    by (simp add: demo_parse_def)
  have p: "sub_id demo_subscription = ''p1''" by (simp add: demo_subscription_def)
  have q: "podcastId_of demo_md5 demo_env = ''p1''"
    by (simp add: podcastId_of_def demo_env_def)
  have l: "length (existingEpisodes demo_store ''p1'') = 3"
    by (simp add: demo_defs existingEpisodes_def)
  have n: "newEpisodes (existingEpisodes demo_store ''p1'') ?F = [feed_item [] ''u9'']"
    by (simp add: demo_defs existingEpisodes_def newEpisodes_def existingGuids_def identity_def
        js_or_def)
  have ne: "newEpisodes (existingEpisodes demo_store (sub_id demo_subscription)) ?F \<noteq> []"
    by (simp add: p n)
  obtain s' r where sub: "subscribe demo_md5 demo_fetch (demo_parse ?F) ''t0'' demo_env empty_store
      = Inr (s', r)"
    by (simp add: subscribe_def demo_defs ok_def Let_def)
  note t = new_items_tagged [where fetch = demo_fetch and sub = demo_subscription
        and parseRSS = "demo_parse ?F" and s = demo_store and now = "''t1''"
        and ms = "\<lambda>i. 1000" and fetch' = demo_fetch and parseRSS' = "demo_parse ?F"
        and md5hex = demo_md5 and e = demo_env and s0 = empty_store and now' = "''t0''",
        OF a b c refl refl ne refl sub a' c refl, unfolded p q n l]
  from t [THEN conjunct1]
  have one: "ep_id (?M ! 0) = Some ''new-1000-0'' \<and> ep_isNew (?M ! 0) = Some True"
    by (simp add: feed_item_def js_or_str_def new_placeholder_def dec.simps digit_def)
  from t [THEN conjunct2, THEN conjunct1]
  have "ep_isNew (?M ! (1 + 0)) = Some False \<and> ep_isNew (?M ! (1 + 2)) = Some False"
    by simp
  then have two: "ep_isNew (?M ! 1) = Some False \<and> ep_isNew (?M ! 3) = Some False"
    by (simp add: numeral_3_eq_3)
  from t [THEN conjunct2, THEN conjunct2, THEN conjunct1]
  have three: "new_placeholder (\<lambda>i. 1000) 0 \<noteq> new_placeholder (\<lambda>i. 1000) 1"
    by simp
  from t [THEN conjunct2, THEN conjunct2, THEN conjunct2, THEN conjunct2, THEN conjunct1]
  have four: "ep_id (existingEpisodes s' ''p1'' ! 0) = Some ''ep-0''
           \<and> ep_id (existingEpisodes s' ''p1'' ! 1) = Some ''g1''
           \<and> ep_isNew (existingEpisodes s' ''p1'' ! 0) = None"
    by (simp add: feed_item_def js_or_str_def ep_placeholder_def dec.simps digit_def)
  show ?thesis using one two three four by (simp add: sub Let_def)
qed

section \<open>Subscribing twice, unsubscribing\<close>

lemma subscribe_succeeds:
  assumes "FEED_URL e \<noteq> []" and "fetch (FEED_URL e) = Response status body" and "ok status"
  shows "\<exists>s' r. subscribe md5hex fetch parseRSS now e s = Inr (s', r)"
  using assms by (simp add: subscribe_def Let_def split: prod.splits)

text \<open>
  Claim C6. Two subscriptions with the same feed URL and no explicit podcast id
  derive the same id, the first 12 characters of the digest of the feed URL. The
  second one adds no key to the registry: it overwrites the record under that id,
  every field taken from the second fetch but \<open>subscribedAt\<close>, which keeps the value the
  first subscription stored. The timestamp \<open>new Date().toISOString()\<close> of the first
  subscription is a non-empty string.
\<close>

theorem resubscribe_same_record:
  assumes "PODCAST_ID e = []"
    and "subscribe md5hex fetch1 parse1 now1 e s0 = Inr (s1, r1)"
    and "now1 \<noteq> []"
    and "fetch2 (FEED_URL e) = Response status2 body2" and "parse2 body2 = (chan2, eps2)"
    and "subscribe md5hex fetch2 parse2 now2 e s1 = Inr (s2, r2)"
  shows "rr_podcastId r1 = Some (take 12 (md5hex (FEED_URL e)))
       \<and> rr_podcastId r2 = rr_podcastId r1
       \<and> map fst (loaded_subscriptions s2) = map fst (loaded_subscriptions s1)
       \<and> (\<exists>sub1. map_of (loaded_subscriptions s1) (take 12 (md5hex (FEED_URL e))) = Some sub1
            \<and> sub_subscribedAt sub1 \<noteq> []
            \<and> map_of (loaded_subscriptions s2) (take 12 (md5hex (FEED_URL e))) =
                Some \<lparr>sub_id = take 12 (md5hex (FEED_URL e)),
                      sub_title = js_or_str (js_or (Some (PODCAST_TITLE e)) (ch_title chan2)) ''Unknown'',
                      sub_author = js_or_str (ch_author chan2) [],
                      sub_feedUrl = FEED_URL e,
                      sub_imageUrl = js_or_str (ch_imageUrl chan2) [],
                      sub_description = js_or_str (ch_description chan2) [],
                      sub_episodeCount = length eps2,
                      sub_lastUpdated = now2,
                      sub_subscribedAt = sub_subscribedAt sub1\<rparr>)"
proof -
  define pid where "pid = take 12 (md5hex (FEED_URL e))"
  have pid: "podcastId_of md5hex e = pid"
    using assms(1) by (simp add: podcastId_of_def generatePodcastId_def pid_def)
  obtain status1 body1 where f1: "fetch1 (FEED_URL e) = Response status1 body1"
    using subscribe_Inr_fetch [OF assms(2)] by blast
  obtain chan1 eps1 where p1: "parse1 body1 = (chan1, eps1)"
    by (cases "parse1 body1") simp
  note first = subscribe_Inr [of md5hex fetch1 parse1 now1 e s0 s1 r1 status1 body1 chan1 eps1,
      OF assms(2) f1 p1, unfolded pid]
  note second = subscribe_Inr [of md5hex fetch2 parse2 now2 e s1 s2 r2 status2 body2 chan2 eps2,
      OF assms(6) assms(4) assms(5), unfolded pid]
  define at1 where "at1 = (case map_of (loaded_subscriptions s0) pid of
                 None \<Rightarrow> now1
               | Some old \<Rightarrow> if sub_subscribedAt old \<noteq> [] then sub_subscribedAt old else now1)"
  have at1: "at1 \<noteq> []"
    using assms(3) by (simp add: at1_def split: option.splits)
  define sub1 where "sub1 =
     \<lparr>sub_id = pid,
      sub_title = js_or_str (js_or (Some (PODCAST_TITLE e)) (ch_title chan1)) ''Unknown'',
      sub_author = js_or_str (ch_author chan1) [],
      sub_feedUrl = FEED_URL e,
      sub_imageUrl = js_or_str (ch_imageUrl chan1) [],
      sub_description = js_or_str (ch_description chan1) [],
      sub_episodeCount = length eps1,
      sub_lastUpdated = now1,
      sub_subscribedAt = at1\<rparr>"
  have l1: "loaded_subscriptions s1 = AList.update pid sub1 (loaded_subscriptions s0)"
    using first(3) by (simp add: loaded_subscriptions_def [of s1] sub1_def at1_def)
  have m1: "map_of (loaded_subscriptions s1) pid = Some sub1"
    by (simp add: l1 update_conv')
  have s1at: "sub_subscribedAt sub1 = at1" by (simp add: sub1_def)
  have in1: "pid \<in> set (map fst (loaded_subscriptions s1))"
    using m1 by (metis map_of_eq_None_iff option.distinct(1) set_map)
  define sub2 where "sub2 =
     \<lparr>sub_id = pid,
      sub_title = js_or_str (js_or (Some (PODCAST_TITLE e)) (ch_title chan2)) ''Unknown'',
      sub_author = js_or_str (ch_author chan2) [],
      sub_feedUrl = FEED_URL e,
      sub_imageUrl = js_or_str (ch_imageUrl chan2) [],
      sub_description = js_or_str (ch_description chan2) [],
      sub_episodeCount = length eps2,
      sub_lastUpdated = now2,
      sub_subscribedAt = sub_subscribedAt sub1\<rparr>"
  have l2: "loaded_subscriptions s2 = AList.update pid sub2 (loaded_subscriptions s1)"
    using second(3) at1 by (simp add: loaded_subscriptions_def [of s2] sub2_def m1 s1at)
  have m2: "map_of (loaded_subscriptions s2) pid = Some sub2"
    by (simp add: l2 update_conv')
  have keys: "map fst (loaded_subscriptions s2) = map fst (loaded_subscriptions s1)"
    using in1 by (simp only: l2 update_keys if_True)
  have ids: "rr_podcastId r1 = Some pid" "rr_podcastId r2 = Some pid"
    using first(5) second(5) by simp_all
  have "\<exists>x. map_of (loaded_subscriptions s1) pid = Some x \<and> sub_subscribedAt x \<noteq> []
            \<and> map_of (loaded_subscriptions s2) pid =
                Some \<lparr>sub_id = pid,
                      sub_title = js_or_str (js_or (Some (PODCAST_TITLE e)) (ch_title chan2)) ''Unknown'',
                      sub_author = js_or_str (ch_author chan2) [],
                      sub_feedUrl = FEED_URL e,
                      sub_imageUrl = js_or_str (ch_imageUrl chan2) [],
                      sub_description = js_or_str (ch_description chan2) [],
                      sub_episodeCount = length eps2,
                      sub_lastUpdated = now2,
                      sub_subscribedAt = sub_subscribedAt x\<rparr>"
    using m1 m2 at1 s1at by (intro exI [of _ sub1]) (simp add: sub2_def)
  then show ?thesis using ids keys unfolding pid_def by simp
qed

theorem resubscribe_same_record_witness:
  "(case subscribe demo_md5 demo_fetch (demo_parse [feed_item ''g1'' ''u1'']) ''t1''
           (demo_env\<lparr>PODCAST_ID := []\<rparr>) empty_store of
      Inl msg \<Rightarrow> False
    | Inr (s1, r1) \<Rightarrow>
        (case subscribe demo_md5 demo_fetch (demo_parse demo_feed) ''t2''
                (demo_env\<lparr>PODCAST_ID := []\<rparr>) s1 of
           Inl msg \<Rightarrow> False
         | Inr (s2, r2) \<Rightarrow>
             rr_podcastId r1 = Some ''001122334455'' \<and> rr_podcastId r2 = Some ''001122334455''
             \<and> map fst (loaded_subscriptions s1) = [''001122334455'']
             \<and> map fst (loaded_subscriptions s2) = [''001122334455'']
             \<and> map (sub_subscribedAt \<circ> snd) (loaded_subscriptions s2) = [''t1'']
             \<and> map (sub_lastUpdated \<circ> snd) (loaded_subscriptions s2) = [''t2'']
             \<and> map (sub_episodeCount \<circ> snd) (loaded_subscriptions s2) = [4]))"
proof -
  let ?e = "demo_env\<lparr>PODCAST_ID := []\<rparr>"
  have a: "demo_fetch (FEED_URL ?e) = Response 200 ''<rss/>''"
    by (simp add: demo_fetch_def)
  have b: "ok 200" by (simp add: ok_def)
  have u: "FEED_URL ?e \<noteq> []" by (simp add: demo_env_def)
  have pe: "PODCAST_ID ?e = []" by simp
  have c: "demo_parse demo_feed ''<rss/>'' = (no_channel, demo_feed)"
    by (simp add: demo_parse_def)
  have t1: "''t1'' \<noteq> []" by simp
  have pid: "take 12 (demo_md5 (FEED_URL ?e)) = ''001122334455''"
    by (simp add: demo_md5_def)
  obtain s1 r1 where first: "subscribe demo_md5 demo_fetch (demo_parse [feed_item ''g1'' ''u1''])
      ''t1'' ?e empty_store = Inr (s1, r1)"
    using subscribe_succeeds [where fetch = demo_fetch and e = ?e, OF u a b] by blast
  obtain s2 r2 where second: "subscribe demo_md5 demo_fetch (demo_parse demo_feed)
      ''t2'' ?e s1 = Inr (s2, r2)"
    using subscribe_succeeds [where fetch = demo_fetch and e = ?e, OF u a b] by blast
  from first have l1: "loaded_subscriptions s1 =
     [(''001122334455'',
       \<lparr>sub_id = ''001122334455'', sub_title = ''Unknown'', sub_author = [],
        sub_feedUrl = ''http://f'', sub_imageUrl = [], sub_description = [],
        sub_episodeCount = 1, sub_lastUpdated = ''t1'', sub_subscribedAt = ''t1''\<rparr>)]"
    by (auto simp: demo_defs subscribe_defs ok_def js_or_def js_or_str_def Let_def)
  note t = resubscribe_same_record [where ?fetch2.0 = demo_fetch and e = ?e
      and ?parse2.0 = "demo_parse demo_feed", OF pe first t1 a c second, unfolded pid]
  from t obtain sub1 where
    ids: "rr_podcastId r1 = Some ''001122334455''" "rr_podcastId r2 = rr_podcastId r1"
    and keys: "map fst (loaded_subscriptions s2) = map fst (loaded_subscriptions s1)"
    and m1: "map_of (loaded_subscriptions s1) ''001122334455'' = Some sub1"
    and m2: "map_of (loaded_subscriptions s2) ''001122334455'' =
                Some \<lparr>sub_id = ''001122334455'',
                      sub_title = js_or_str (js_or (Some (PODCAST_TITLE ?e)) (ch_title no_channel)) ''Unknown'',
                      sub_author = js_or_str (ch_author no_channel) [],
                      sub_feedUrl = FEED_URL ?e,
                      sub_imageUrl = js_or_str (ch_imageUrl no_channel) [],
                      sub_description = js_or_str (ch_description no_channel) [],
                      sub_episodeCount = length demo_feed,
                      sub_lastUpdated = ''t2'',
                      sub_subscribedAt = sub_subscribedAt sub1\<rparr>"
    by blast
  from m1 have at: "sub_subscribedAt sub1 = ''t1''" by (auto simp: l1)
  from keys have k2: "map fst (loaded_subscriptions s2) = [''001122334455'']" by (simp add: l1)
  then obtain x where l2: "loaded_subscriptions s2 = [(''001122334455'', x)]"
    by (cases "loaded_subscriptions s2") auto
  with m2 at have x: "sub_subscribedAt x = ''t1''" "sub_lastUpdated x = ''t2''"
    "sub_episodeCount x = 4"
    by (auto simp: demo_feed_def)
  show ?thesis using ids k2 x by (simp add: first second l1 l2)
qed

lemma unsubscribe_frame:
  "map_of (loaded_subscriptions (fst (unsubscribe md5hex e s)))
     = (map_of (loaded_subscriptions s))(podcastId_of md5hex e := None)"
  "feeds (fst (unsubscribe md5hex e s)) = feeds s"
  "episodes (fst (unsubscribe md5hex e s)) = episodes s"
  by (simp_all add: unsubscribe_def Let_def loaded_subscriptions_def delete_conv')

text \<open>
  Claim C9. The unsubscribe handler (\<open>main\<close> with \<open>ACTION = unsubscribe\<close>, and the
  function \<open>unsubscribe\<close> it calls) removes the subscription of the podcast id from the
  registry, leaves every other subscription as it was, and changes neither the
  episode lists nor the feed snapshots of any podcast.
\<close>

theorem unsubscribe_keeps_ledger:
  assumes "ACTION e = ''unsubscribe''"
    and "s' = fst (subscribe_main md5hex fetch parseRSS now nowms e s)"
  shows "map_of (loaded_subscriptions s') = (map_of (loaded_subscriptions s))(podcastId_of md5hex e := None)
       \<and> feeds s' = feeds s \<and> episodes s' = episodes s
       \<and> map_of (loaded_subscriptions (fst (unsubscribe md5hex e s)))
           = (map_of (loaded_subscriptions s))(podcastId_of md5hex e := None)
       \<and> feeds (fst (unsubscribe md5hex e s)) = feeds s
       \<and> episodes (fst (unsubscribe md5hex e s)) = episodes s"
proof -
  have "s' = write_request (REQUEST_ID_of nowms e)
               ((snd (unsubscribe md5hex e s))\<lparr>rr_requestId := Some (REQUEST_ID_of nowms e),
                                                rr_timestamp := Some now\<rparr>)
               (fst (unsubscribe md5hex e s))"
    using assms by (simp add: subscribe_main_def ACTION_of_def Let_def split: prod.splits)
  then have "loaded_subscriptions s' = loaded_subscriptions (fst (unsubscribe md5hex e s))"
    and "feeds s' = feeds (fst (unsubscribe md5hex e s))"
    and "episodes s' = episodes (fst (unsubscribe md5hex e s))"
    by (simp_all add: write_request_def loaded_subscriptions_def)
  then show ?thesis by (simp add: unsubscribe_frame)
qed

theorem unsubscribe_keeps_ledger_witness:
  "ACTION (demo_env\<lparr>ACTION := ''unsubscribe''\<rparr>) = ''unsubscribe''
   \<and> (let s = demo_store\<lparr>subscriptions := Some [(''p1'', demo_subscription),
                                                   (''p2'', demo_subscription)]\<rparr>;
           s' = fst (subscribe_main demo_md5 demo_fetch (demo_parse demo_feed) ''t1'' 0
                       (demo_env\<lparr>ACTION := ''unsubscribe''\<rparr>) s)
       in map_of (loaded_subscriptions s') ''p1'' = None
          \<and> map_of (loaded_subscriptions s') ''p2'' = Some demo_subscription
          \<and> episodes s' = episodes demo_store
          \<and> feeds s' = feeds demo_store)"
proof -
  let ?e = "demo_env\<lparr>ACTION := ''unsubscribe''\<rparr>"
  let ?s = "demo_store\<lparr>subscriptions := Some [(''p1'', demo_subscription),
                                                 (''p2'', demo_subscription)]\<rparr>"
  have a: "ACTION ?e = ''unsubscribe''" by simp
  have q: "podcastId_of demo_md5 ?e = ''p1''"
    by (simp add: podcastId_of_def demo_env_def)
  note t = unsubscribe_keeps_ledger [where md5hex = demo_md5 and fetch = demo_fetch
      and parseRSS = "demo_parse demo_feed" and now = "''t1''" and nowms = 0 and s = ?s,
      OF a refl, unfolded q]
  from t [THEN conjunct1]
  have one: "map_of (loaded_subscriptions (fst (subscribe_main demo_md5 demo_fetch
        (demo_parse demo_feed) ''t1'' 0 ?e ?s))) ''p1'' = None"
    and two: "map_of (loaded_subscriptions (fst (subscribe_main demo_md5 demo_fetch
        (demo_parse demo_feed) ''t1'' 0 ?e ?s))) ''p2'' = Some demo_subscription"
    by (simp_all add: loaded_subscriptions_def)
  from t [THEN conjunct2, THEN conjunct1] t [THEN conjunct2, THEN conjunct2, THEN conjunct1]
  have three: "episodes (fst (subscribe_main demo_md5 demo_fetch
        (demo_parse demo_feed) ''t1'' 0 ?e ?s)) = episodes demo_store"
    "feeds (fst (subscribe_main demo_md5 demo_fetch
        (demo_parse demo_feed) ''t1'' 0 ?e ?s)) = feeds demo_store"
    by simp_all
  show ?thesis using a one two three by (simp add: Let_def)
qed

section \<open>Properties of the poller\<close>

lemma poll_unfold:
  "pollForResults pages rid a log =
     (if a > 60 then (OnError ''Timeout waiting for results'', log)
      else
        case pages rid a of
          IOFailure msg \<Rightarrow> pollForResults pages rid (a + 1) (log @ [Get a, Delay 2000])
        | HttpResponse code body \<Rightarrow>
            if isSuccessful code then (OnSuccess body, log @ [Get a])
            else if code = 404 then pollForResults pages rid (a + 1) (log @ [Get a, Delay 2000])
            else (OnError (''HTTP '' @ dec code), log @ [Get a]))"
  by (subst pollForResults.simps) (simp split: read_outcome.splits)

lemma poll_retry_step:
  assumes "a \<le> 60" and "retried (pages rid a)"
  shows "pollForResults pages rid a log = pollForResults pages rid (a + 1) (log @ [Get a, Delay 2000])"
  using assms
  by (subst poll_unfold)
     (auto simp: retried_def io_failure_def not_found_def isSuccessful_def split: read_outcome.splits)

lemma retries_step: "a < b \<Longrightarrow> retries a b = [Get a, Delay 2000] @ retries (Suc a) b"
  by (simp add: retries_def upt_rec [of a b])

lemma retries_same [simp]: "retries a a = []"
  by (simp add: retries_def)

lemma poll_retries:
  assumes "\<forall>k. a \<le> k \<and> k < b \<longrightarrow> retried (pages rid k)" and "a \<le> b" and "b \<le> 61"
  shows "pollForResults pages rid a log = pollForResults pages rid b (log @ retries a b)"
  using assms
proof (induction "b - a" arbitrary: a log)
  case 0
  then show ?case by simp
next
  case (Suc n)
  then have lt: "a < b" and le: "a \<le> 60" by simp_all
  have "pollForResults pages rid a log = pollForResults pages rid (Suc a) (log @ [Get a, Delay 2000])"
    using poll_retry_step [OF le, of pages rid log] Suc.prems(1) lt by simp
  also have "\<dots> = pollForResults pages rid b ((log @ [Get a, Delay 2000]) @ retries (Suc a) b)"
    using Suc.hyps(2) Suc.prems lt by (intro Suc.hyps(1)) auto
  finally show ?case using lt by (simp add: retries_step)
qed

lemma reads_retries: "a \<le> b \<Longrightarrow> reads (retries a b) = b - a"
proof (induction "b - a" arbitrary: a)
  case 0
  then show ?case by (simp add: reads_def)
next
  case (Suc n)
  then have "a < b" by simp
  moreover have "reads (retries (Suc a) b) = b - Suc a"
    using Suc by (intro Suc.hyps(1)) auto
  ultimately show ?case using Suc.hyps(2) by (simp add: retries_step reads_def)
qed

lemma poll_times_out:
  assumes "\<forall>k. retried (pages rid k)"
  shows "pollForResults pages rid 0 [] = (OnError ''Timeout waiting for results'', retries 0 61)"
proof -
  have "pollForResults pages rid 0 [] = pollForResults pages rid 61 ([] @ retries 0 61)"
    using assms by (intro poll_retries) auto
  then show ?thesis by (simp add: poll_unfold [of pages rid 61])
qed

text \<open>
  Claim C3, evaluated. When every read of the request answers 404, the poller ends
  with the timeout error, and it has then issued 61 reads, those of the attempts 0 to
  60, each followed by a delay of two seconds: one read more than the 60 attempts
  that the claim and the comment at the test \<open>attempt > 60\<close> state.
\<close>

theorem never_written_polls_61_times:
  "pollForResults (\<lambda>rid k. HttpResponse 404 []) ''r1'' 0 []
     = (OnError ''Timeout waiting for results'', retries 0 61)
   \<and> reads (snd (pollForResults (\<lambda>rid k. HttpResponse 404 []) ''r1'' 0 [])) = 61"
proof -
  have "\<forall>k. retried ((\<lambda>rid k. HttpResponse 404 []) ''r1'' k)"
    by (simp add: retried_def not_found_def)
  then have t: "pollForResults (\<lambda>rid k. HttpResponse 404 []) ''r1'' 0 []
     = (OnError ''Timeout waiting for results'', retries 0 61)"
    by (rule poll_times_out)
  have r: "reads (retries 0 61) = 61" using reads_retries [of 0 61] by simp
  show ?thesis using t r by simp
qed

lemma poll_same_when_final:
  assumes "a \<le> 60" and "\<not> retried (pages rid a)" and "pages' rid a = pages rid a"
  shows "pollForResults pages rid a log = pollForResults pages' rid a log"
proof -
  have "pollForResults p rid a log =
          (case pages rid a of
             IOFailure msg \<Rightarrow> (OnError [], log)
           | HttpResponse code body \<Rightarrow>
               if isSuccessful code then (OnSuccess body, log @ [Get a])
               else (OnError (''HTTP '' @ dec code), log @ [Get a]))"
    if "p rid a = pages rid a" for p
    using assms(1,2) that
    by (subst poll_unfold)
       (auto simp: retried_def io_failure_def not_found_def split: read_outcome.splits)
  from this [of pages] this [of pages'] assms(3) show ?thesis by simp
qed

lemma poll_same_on_retried:
  assumes "\<forall>k. pages' rid k = pages rid k \<or> (retried (pages rid k) \<and> retried (pages' rid k))"
  shows "pollForResults pages rid attempt log = pollForResults pages' rid attempt log"
proof (induction "61 - attempt" arbitrary: attempt log)
  case 0
  then have "attempt > 60" by simp
  then show ?case by (simp add: poll_unfold [of _ rid attempt])
next
  case (Suc n)
  then have le: "attempt \<le> 60" by simp
  have ih: "pollForResults pages rid (attempt + 1) l = pollForResults pages' rid (attempt + 1) l"
    for l using Suc.hyps(2) by (intro Suc.hyps(1)) simp
  from assms have "pages' rid attempt = pages rid attempt
      \<or> (retried (pages rid attempt) \<and> retried (pages' rid attempt))" by blast
  then show ?case
  proof
    assume same: "pages' rid attempt = pages rid attempt"
    show ?thesis
    proof (cases "retried (pages rid attempt)")
      case True
      then show ?thesis
        using poll_retry_step [OF le, of pages rid log] poll_retry_step [OF le, of pages' rid log]
          ih same
        by simp
    next
      case False
      with le show ?thesis using same by (rule poll_same_when_final)
    qed
  next
    assume "retried (pages rid attempt) \<and> retried (pages' rid attempt)"
    then show ?thesis
      using poll_retry_step [OF le, of pages rid log] poll_retry_step [OF le, of pages' rid log] ih
      by simp
  qed
qed

lemma poll_aborts_on_error_status:
  assumes "\<forall>k<n. retried (pages rid k)" and "n \<le> 60"
    and "pages rid n = HttpResponse code body" and "\<not> isSuccessful code" and "code \<noteq> 404"
  shows "pollForResults pages rid 0 [] = (OnError (''HTTP '' @ dec code), retries 0 n @ [Get n])"
proof -
  have "pollForResults pages rid 0 [] = pollForResults pages rid n ([] @ retries 0 n)"
    using assms(1,2) by (intro poll_retries) auto
  then show ?thesis using assms(2-5) by (simp add: poll_unfold [of pages rid n])
qed

text \<open>
  Claim C4 fails: a read that answers 500 ends the poll at once with the error
  \<open>HTTP 500\<close>, after one read, where a 404 at every attempt ends with the timeout.
\<close>

theorem server_error_aborts_poll:
  "pollForResults (\<lambda>rid k. HttpResponse 500 []) ''r1'' 0 [] = (OnError ''HTTP 500'', [Get 0])
   \<and> fst (pollForResults (\<lambda>rid k. HttpResponse 404 []) ''r1'' 0 [])
       = OnError ''Timeout waiting for results''
   \<and> reads (snd (pollForResults (\<lambda>rid k. HttpResponse 500 []) ''r1'' 0 [])) = 1"
proof -
  have a: "pollForResults (\<lambda>rid k. HttpResponse 500 []) ''r1'' 0 [] = (OnError ''HTTP 500'', [Get 0])"
    by (subst poll_unfold) (simp add: isSuccessful_def dec.simps digit_def)
  have "\<forall>k. retried ((\<lambda>rid k. HttpResponse 404 []) ''r1'' k)"
    by (simp add: retried_def not_found_def)
  then have b: "pollForResults (\<lambda>rid k. HttpResponse 404 []) ''r1'' 0 []
     = (OnError ''Timeout waiting for results'', retries 0 61)"
    by (rule poll_times_out)
  show ?thesis using a b by (simp add: reads_def)
qed

lemma poll_returns_record:
  assumes "\<forall>k<n. retried (pages rid k)" and "n \<le> 60"
    and "pages rid n = HttpResponse code body" and "isSuccessful code"
  shows "pollForResults pages rid 0 [] = (OnSuccess body, retries 0 n @ [Get n])"
proof -
  have "pollForResults pages rid 0 [] = pollForResults pages rid n ([] @ retries 0 n)"
    using assms(1,2) by (intro poll_retries) auto
  then show ?thesis using assms(2-4) by (simp add: poll_unfold [of pages rid n])
qed

lemma poll_exhausts:
  assumes "\<forall>k\<le>60. retried (pages rid k)"
  shows "pollForResults pages rid 0 [] = (OnError ''Timeout waiting for results'', retries 0 61)"
proof -
  have "pollForResults pages rid 0 [] = pollForResults pages rid 61 ([] @ retries 0 61)"
    using assms by (intro poll_retries) auto
  then show ?thesis by (simp add: poll_unfold [of pages rid 61])
qed

text \<open>
  Claim C4, amended. A read that fails in transport (\<open>onFailure\<close>) is handled as a 404
  is: replacing transport failures by 404 answers changes neither the callback nor
  the reads and delays of the poll. A status that is neither successful nor 404 is
  not retried: after \<open>n\<close> retried attempts it ends the poll with the error
  \<open>HTTP <code>\<close>. The other two endings are the record, returned by the first
  successful read, and the timeout, after 61 retried attempts.
\<close>

theorem transport_failure_retried_like_not_found:
  "((\<forall>k. pages' rid k = pages rid k \<or> (io_failure (pages rid k) \<and> not_found (pages' rid k)))
      \<longrightarrow> pollForResults pages rid attempt log = pollForResults pages' rid attempt log)
   \<and> ((\<forall>k<n. retried (pages rid k)) \<and> n \<le> 60 \<and> pages rid n = HttpResponse code body
        \<and> \<not> isSuccessful code \<and> code \<noteq> 404
      \<longrightarrow> pollForResults pages rid 0 [] = (OnError (''HTTP '' @ dec code), retries 0 n @ [Get n]))
   \<and> ((\<forall>k<n. retried (pages rid k)) \<and> n \<le> 60 \<and> pages rid n = HttpResponse code body
        \<and> isSuccessful code
      \<longrightarrow> pollForResults pages rid 0 [] = (OnSuccess body, retries 0 n @ [Get n]))
   \<and> ((\<forall>k\<le>60. retried (pages rid k))
      \<longrightarrow> pollForResults pages rid 0 [] = (OnError ''Timeout waiting for results'', retries 0 61))"
proof (intro conjI impI)
  assume "\<forall>k. pages' rid k = pages rid k \<or> (io_failure (pages rid k) \<and> not_found (pages' rid k))"
  then have "\<forall>k. pages' rid k = pages rid k \<or> (retried (pages rid k) \<and> retried (pages' rid k))"
    by (auto simp: retried_def)
  then show "pollForResults pages rid attempt log = pollForResults pages' rid attempt log"
    by (rule poll_same_on_retried)
next
  assume "(\<forall>k<n. retried (pages rid k)) \<and> n \<le> 60 \<and> pages rid n = HttpResponse code body
        \<and> \<not> isSuccessful code \<and> code \<noteq> 404"
  then show "pollForResults pages rid 0 [] = (OnError (''HTTP '' @ dec code), retries 0 n @ [Get n])"
    using poll_aborts_on_error_status [of n pages rid code body] by blast
next
  assume "(\<forall>k<n. retried (pages rid k)) \<and> n \<le> 60 \<and> pages rid n = HttpResponse code body
        \<and> isSuccessful code"
  then show "pollForResults pages rid 0 [] = (OnSuccess body, retries 0 n @ [Get n])"
    using poll_returns_record [of n pages rid code body] by blast
next
  assume "\<forall>k\<le>60. retried (pages rid k)"
  then show "pollForResults pages rid 0 [] = (OnError ''Timeout waiting for results'', retries 0 61)"
    by (rule poll_exhausts)
qed

theorem transport_failure_retried_like_not_found_witness:
  "pollForResults (\<lambda>rid k. if k = 0 then IOFailure ''reset'' else HttpResponse 200 ''{}'') ''r1'' 0 []
     = pollForResults (\<lambda>rid k. if k = 0 then HttpResponse 404 [] else HttpResponse 200 ''{}'') ''r1'' 0 []
   \<and> pollForResults (\<lambda>rid k. if k = 0 then HttpResponse 404 [] else HttpResponse 200 ''{}'') ''r1'' 0 []
     = (OnSuccess ''{}'', [Get 0, Delay 2000, Get 1])
   \<and> pollForResults (\<lambda>rid k. if k = 0 then IOFailure ''reset'' else HttpResponse 503 []) ''r1'' 0 []
     = (OnError ''HTTP 503'', [Get 0, Delay 2000, Get 1])
   \<and> pollForResults (\<lambda>rid k. IOFailure ''reset'') ''r1'' 0 []
     = (OnError ''Timeout waiting for results'', retries 0 61)"
proof -
  let ?io = "\<lambda>rid k. if k = (0::nat) then IOFailure ''reset'' else HttpResponse 200 ''{}''"
  let ?nf = "\<lambda>rid k. if k = (0::nat) then HttpResponse 404 [] else HttpResponse 200 ''{}''"
  let ?err = "\<lambda>rid k. if k = (0::nat) then IOFailure ''reset'' else HttpResponse 503 []"
  have h: "\<forall>k. ?nf ''r1'' k = ?io ''r1'' k \<or> (io_failure (?io ''r1'' k) \<and> not_found (?nf ''r1'' k))"
    by (simp add: io_failure_def not_found_def)
  have one: "pollForResults ?io ''r1'' 0 [] = pollForResults ?nf ''r1'' 0 []"
    using transport_failure_retried_like_not_found [of ?nf "''r1''" ?io 0 "[]", THEN conjunct1] h
    by blast
  have f: "(\<forall>k<1. retried (?nf ''r1'' k)) \<and> (1::nat) \<le> 60 \<and> ?nf ''r1'' 1 = HttpResponse 200 ''{}''
        \<and> isSuccessful 200"
    by (simp add: retried_def not_found_def isSuccessful_def)
  have "pollForResults ?nf ''r1'' 0 [] = (OnSuccess ''{}'', retries 0 1 @ [Get 1])"
    using transport_failure_retried_like_not_found [where pages = ?nf and rid = "''r1''"
        and n = 1 and code = 200 and body = "''{}''", THEN conjunct2, THEN conjunct2,
        THEN conjunct1] f
    by blast
  then have two: "pollForResults ?nf ''r1'' 0 [] = (OnSuccess ''{}'', [Get 0, Delay 2000, Get 1])"
    by (simp add: retries_def)
  have g: "(\<forall>k<1. retried (?err ''r1'' k)) \<and> (1::nat) \<le> 60 \<and> ?err ''r1'' 1 = HttpResponse 503 []
        \<and> \<not> isSuccessful 503 \<and> (503::nat) \<noteq> 404"
    by (simp add: retried_def io_failure_def isSuccessful_def)
  have "pollForResults ?err ''r1'' 0 [] = (OnError (''HTTP '' @ dec 503), retries 0 1 @ [Get 1])"
    using transport_failure_retried_like_not_found [where pages = ?err and rid = "''r1''"
        and n = 1 and code = 503 and body = "[]", THEN conjunct2, THEN conjunct1] g
    by blast
  then have three: "pollForResults ?err ''r1'' 0 [] = (OnError ''HTTP 503'', [Get 0, Delay 2000, Get 1])"
    by (simp add: dec.simps digit_def retries_def)
  have e: "\<forall>k\<le>60. retried ((\<lambda>rid k. IOFailure ''reset'') ''r1'' k)"
    by (simp add: retried_def io_failure_def)
  have four: "pollForResults (\<lambda>rid k. IOFailure ''reset'') ''r1'' 0 []
     = (OnError ''Timeout waiting for results'', retries 0 61)"
    using transport_failure_retried_like_not_found [where pages = "\<lambda>rid k. IOFailure ''reset''"
        and rid = "''r1''", THEN conjunct2, THEN conjunct2, THEN conjunct2] e
    by blast
  show ?thesis using one two three four by simp
qed

section \<open>Properties of the batch refresh\<close>

lemma updateFeed_frame:
  "requests (fst (updateFeed fetch parseRSS now ms sub s)) = requests s"
  "request_log (fst (updateFeed fetch parseRSS now ms sub s)) = request_log s"
  "subscriptions (fst (updateFeed fetch parseRSS now ms sub s)) = subscriptions s"
  by (simp_all add: updateFeed_def Let_def split: fetch_outcome.splits prod.splits)

lemma updateFeed_result:
  "snd (updateFeed fetch parseRSS now ms sub s) =
     (case fetch (sub_feedUrl sub) of
        Rejected msg \<Rightarrow> NotUpdated msg
      | Crashed msg \<Rightarrow> Died msg
      | Response status body \<Rightarrow>
          if \<not> ok status then NotUpdated (''HTTP '' @ dec status)
          else Updated (length (newEpisodes (existingEpisodes s (sub_id sub)) (snd (parseRSS body))))
                 (length (snd (parseRSS body))))"
  by (simp add: updateFeed_def Let_def split: fetch_outcome.splits prod.splits)

text \<open>An iteration whose fetch settles goes on to the next key.\<close>

lemma feed_loop_Cons:
  assumes "map_of subs p = Some sub" and "fetch_settles (fetch (sub_feedUrl sub))"
  shows "\<exists>subs2.
           feed_loop fetch parseRSS clock ms k (p # ps) (subs, s, results) =
             feed_loop fetch parseRSS clock ms (Suc k) ps
               (subs2, fst (updateFeed fetch parseRSS (clock k) (ms k) sub s),
                AList.update p (snd (updateFeed fetch parseRSS (clock k) (ms k) sub s)) results)
         \<and> map_of subs2 = (map_of subs)(p \<mapsto> touch fetch parseRSS (clock k) sub)
         \<and> fst ` set subs2 = fst ` set subs"
proof -
  define r where "r = snd (updateFeed fetch parseRSS (clock k) (ms k) sub s)"
  define subs1 where "subs1 = AList.map_entry p (\<lambda>x. x\<lparr>sub_lastUpdated := clock k\<rparr>) subs"
  define subs2 where "subs2 =
     (case r of
        Updated n totalEpisodes \<Rightarrow>
          if totalEpisodes \<noteq> 0
          then AList.map_entry p (\<lambda>x. x\<lparr>sub_episodeCount := totalEpisodes\<rparr>) subs1
          else subs1
      | NotUpdated msg \<Rightarrow> subs1
      | Died msg \<Rightarrow> subs1)"
  have alive: "\<not> died r"
    using assms(2) unfolding r_def updateFeed_result
    by (simp add: fetch_settles_def died_def split: fetch_outcome.splits)
  have step: "feed_loop fetch parseRSS clock ms k (p # ps) (subs, s, results) =
             feed_loop fetch parseRSS clock ms (Suc k) ps
               (subs2, fst (updateFeed fetch parseRSS (clock k) (ms k) sub s),
                AList.update p r results)"
  proof -
    obtain s1 r0 where u: "updateFeed fetch parseRSS (clock k) (ms k) sub s = (s1, r0)"
      by (cases "updateFeed fetch parseRSS (clock k) (ms k) sub s") simp
    then have r0: "r0 = r" and s1: "s1 = fst (updateFeed fetch parseRSS (clock k) (ms k) sub s)"
      by (simp_all add: r_def)
    have u': "updateFeed fetch parseRSS (clock k) (ms k) sub s = (s1, r)"
      using u r0 by simp
    show ?thesis
      using assms(1) alive
      by (simp add: u' Let_def subs1_def subs2_def split: update_result.splits)
  qed
  have m: "map_of subs2 = (map_of subs)(p \<mapsto> touch fetch parseRSS (clock k) sub)"
    using assms unfolding subs2_def subs1_def r_def updateFeed_result
    by (auto simp: map_of_map_entry touch_def fetch_settles_def split: fetch_outcome.splits)
  have keys: "fst ` set subs2 = fst ` set subs"
    unfolding subs2_def subs1_def by (simp add: dom_map_entry split: update_result.splits)
  show ?thesis using step m keys unfolding r_def by blast
qed

text \<open>An iteration whose fetch crashes is the last: the process ends there.\<close>

lemma feed_loop_Cons_crashed:
  assumes "map_of subs p = Some sub" and "fetch (sub_feedUrl sub) = Crashed msg"
  shows "feed_loop fetch parseRSS clock ms k (p # ps) (subs, s, results) = Inl s"
  using assms by (simp add: updateFeed_def died_def)

lemma feed_loop_entries:
  assumes "distinct pids" and "set pids \<subseteq> fst ` set subs"
    and "\<forall>p\<in>set pids. \<forall>sub. map_of subs p = Some sub \<longrightarrow> fetch_settles (fetch (sub_feedUrl sub))"
  shows "\<exists>subs' s' res.
           feed_loop fetch parseRSS clock ms k pids (subs, s, results) = Inr (subs', s', res)
         \<and> (\<forall>j<length pids. map_of subs' (pids ! j)
                = map_option (touch fetch parseRSS (clock (k + j))) (map_of subs (pids ! j)))
         \<and> (\<forall>x. x \<notin> set pids \<longrightarrow> map_of subs' x = map_of subs x)"
  using assms
proof (induction pids arbitrary: k subs s results)
  case Nil
  then show ?case by simp
next
  case (Cons p ps)
  from Cons.prems(2) have "p \<in> fst ` set subs" by simp
  then obtain sub where sub: "map_of subs p = Some sub"
    by (metis map_of_eq_None_iff not_None_eq)
  with Cons.prems(3) have settles: "fetch_settles (fetch (sub_feedUrl sub))" by simp
  define s1 where "s1 = fst (updateFeed fetch parseRSS (clock k) (ms k) sub s)"
  define res1 where
    "res1 = AList.update p (snd (updateFeed fetch parseRSS (clock k) (ms k) sub s)) results"
  from sub settles
    feed_loop_Cons [where subs = subs and p = p and sub = sub and fetch = fetch
      and parseRSS = parseRSS and clock = clock and ms = ms and k = k and ps = ps and s = s
      and results = results]
  obtain subs2 where
    step: "feed_loop fetch parseRSS clock ms k (p # ps) (subs, s, results) =
             feed_loop fetch parseRSS clock ms (Suc k) ps (subs2, s1, res1)"
    and m2: "map_of subs2 = (map_of subs)(p \<mapsto> touch fetch parseRSS (clock k) sub)"
    and k2: "fst ` set subs2 = fst ` set subs"
    unfolding s1_def res1_def by blast
  from Cons.prems have d: "distinct ps" and notin: "p \<notin> set ps"
    and sub2: "set ps \<subseteq> fst ` set subs2"
    by (simp_all add: k2)
  have settle2: "\<forall>q\<in>set ps. \<forall>x. map_of subs2 q = Some x \<longrightarrow> fetch_settles (fetch (sub_feedUrl x))"
    using Cons.prems(3) notin by (auto simp: m2)
  from d sub2 settle2
    Cons.IH [where subs = subs2 and k = "Suc k" and s = s1 and results = res1]
  obtain subs' s' res where
    run: "feed_loop fetch parseRSS clock ms (Suc k) ps (subs2, s1, res1) = Inr (subs', s', res)"
    and later: "\<forall>j<length ps. map_of subs' (ps ! j)
                = map_option (touch fetch parseRSS (clock (Suc k + j))) (map_of subs2 (ps ! j))"
    and others: "\<forall>x. x \<notin> set ps \<longrightarrow> map_of subs' x = map_of subs2 x"
    by blast
  have entries: "map_of subs' ((p # ps) ! j)
                = map_option (touch fetch parseRSS (clock (k + j))) (map_of subs ((p # ps) ! j))"
    if "j < length (p # ps)" for j
  proof (cases j)
    case 0
    then show ?thesis using others notin by (simp add: m2 sub)
  next
    case (Suc i)
    with that have i: "i < length ps" by simp
    then have "ps ! i \<noteq> p" using notin by (metis nth_mem)
    then show ?thesis using later i Suc by (simp add: m2)
  qed
  have rest: "map_of subs' x = map_of subs x" if "x \<notin> set (p # ps)" for x
    using that others by (simp add: m2)
  have "feed_loop fetch parseRSS clock ms k (p # ps) (subs, s, results) = Inr (subs', s', res)"
    using step run by simp
  with entries rest show ?case by (intro exI [of _ subs'] exI [of _ s'] exI [of _ res]) simp
qed

text \<open>
  When the fetch of every subscribed feed settles, the batch refresh stores, for the
  subscription processed in iteration \<open>k\<close>, \<open>lastUpdated\<close> as the clock of that
  iteration, also after a rejected fetch or an error status, and \<open>episodeCount\<close> as the
  number of items of the fresh feed when that number is not zero.
\<close>

lemma refresh_touches_when_fetches_settle:
  assumes "subscriptions s = Some subs" and "distinct (map fst subs)"
    and "\<forall>(p, x)\<in>set subs. fetch_settles (fetch (sub_feedUrl x))"
    and "k < length subs" and "subs ! k = (pid, sub)"
  shows "map_of (loaded_subscriptions (update_feeds_main fetch parseRSS clock ms s)) pid =
           Some (sub\<lparr>sub_lastUpdated := clock k,
                     sub_episodeCount :=
                       (case fetch (sub_feedUrl sub) of
                          Rejected msg \<Rightarrow> sub_episodeCount sub
                        | Crashed msg \<Rightarrow> sub_episodeCount sub
                        | Response status body \<Rightarrow>
                            if ok status \<and> snd (parseRSS body) \<noteq> []
                            then length (snd (parseRSS body))
                            else sub_episodeCount sub)\<rparr>)"
proof -
  have keys: "set (map fst subs) \<subseteq> fst ` set subs" by simp
  have settle: "\<forall>p\<in>set (map fst subs). \<forall>x. map_of subs p = Some x
      \<longrightarrow> fetch_settles (fetch (sub_feedUrl x))"
    using assms(3) by (auto dest: map_of_SomeD)
  from assms(2) keys settle
    feed_loop_entries [where pids = "map fst subs" and subs = subs and fetch = fetch
      and parseRSS = parseRSS and clock = clock and ms = ms and k = 0 and s = s
      and results = "[]"]
  obtain subs' s' res where
    run: "feed_loop fetch parseRSS clock ms 0 (map fst subs) (subs, s, []) = Inr (subs', s', res)"
    and entries: "\<forall>j<length (map fst subs). map_of subs' (map fst subs ! j)
                = map_option (touch fetch parseRSS (clock (0 + j))) (map_of subs (map fst subs ! j))"
    by blast
  have "(pid, sub) \<in> set subs" using assms(4,5) by (metis nth_mem)
  then have old: "map_of subs pid = Some sub" using assms(2) by simp
  have "map fst subs ! k = pid" using assms(4,5) by simp
  with entries assms(4) old have "map_of subs' pid = Some (touch fetch parseRSS (clock k) sub)"
    by (metis add_0 length_map option.simps(9))
  moreover have "loaded_subscriptions (update_feeds_main fetch parseRSS clock ms s) = subs'"
    using assms(1) run by (simp add: update_feeds_main_def loaded_subscriptions_def)
  ultimately show ?thesis by (simp add: touch_def)
qed

lemma fetch_moved_crashes:
  "fetch_url demo_get_throws demo_network ''http://moved'' = Crashed ''Invalid URL''"
  by (simp add: fetch_url_def request.simps [of _ _ _ _ 0] request.simps [of _ _ _ _ "Suc 0"]
      demo_get_throws_def demo_network_def redirect_to_def)

lemma fetch_secure_crashes:
  "fetch_url demo_get_throws demo_network ''http://secure'' = Crashed ''Protocol not supported''"
  by (simp add: fetch_url_def request.simps [of _ _ _ _ 0] request.simps [of _ _ _ _ "Suc 0"]
      demo_get_throws_def demo_network_def redirect_to_def)

lemma fetch_f_resolves:
  "fetch_url demo_get_throws demo_network ''http://f'' = Response 200 ''<rss/>''"
  by (simp add: fetch_url_def request.simps [of _ _ _ _ 0]
      demo_get_throws_def demo_network_def redirect_to_def)


text \<open>
  Claim C10, evaluated. The registry holds \<open>p1\<close>, whose feed answers 200, and \<open>p2\<close>,
  whose feed answers 302 with a relative \<open>Location\<close>. \<open>fetch\<close> passes that location to
  \<open>protocol.get\<close> from the response callback, where the exception is caught by
  nothing. The process ends in the second iteration, after the refresh of \<open>p1\<close> has
  written its feed snapshot at clock \<open>c0\<close>; \<open>subscriptions.json\<close> and
  \<open>last_update.json\<close> are not written, and the stored \<open>lastUpdated\<close> of \<open>p1\<close> and of
  \<open>p2\<close> is still the prior \<open>t0\<close>.
\<close>

theorem refresh_dies_on_redirect:
  "fetch_url demo_get_throws demo_network ''http://f'' = Response 200 ''<rss/>''
   \<and> fetch_url demo_get_throws demo_network ''http://moved'' = Crashed ''Invalid URL''
   \<and> subscriptions (update_feeds_main (fetch_url demo_get_throws demo_network) demo_extract
         demo_clock (\<lambda>k i. 1000) demo_moved_registry) = subscriptions demo_moved_registry
   \<and> last_update (update_feeds_main (fetch_url demo_get_throws demo_network) demo_extract
         demo_clock (\<lambda>k i. 1000) demo_moved_registry) = None
   \<and> map_option fs_lastUpdated (feeds (update_feeds_main (fetch_url demo_get_throws demo_network)
         demo_extract demo_clock (\<lambda>k i. 1000) demo_moved_registry) ''p1'') = Some ''c0''
   \<and> map_option sub_lastUpdated (map_of (loaded_subscriptions (update_feeds_main
         (fetch_url demo_get_throws demo_network) demo_extract demo_clock (\<lambda>k i. 1000)
         demo_moved_registry)) ''p1'') = Some ''t0''
   \<and> map_option sub_lastUpdated (map_of (loaded_subscriptions (update_feeds_main
         (fetch_url demo_get_throws demo_network) demo_extract demo_clock (\<lambda>k i. 1000)
         demo_moved_registry)) ''p2'') = Some ''t0''"
proof -
  let ?fetch = "fetch_url demo_get_throws demo_network"
  let ?p2 = "demo_subscription\<lparr>sub_id := ''p2'', sub_feedUrl := ''http://moved''\<rparr>"
  let ?subs = "[(''p1'', demo_subscription), (''p2'', ?p2)]"
  define s1 where "s1 = fst (updateFeed ?fetch demo_extract (demo_clock 0) (\<lambda>i. 1000)
      demo_subscription demo_moved_registry)"
  have subs: "subscriptions demo_moved_registry = Some ?subs"
    by (simp add: demo_moved_registry_def)
  have f1: "fetch_settles (?fetch (sub_feedUrl demo_subscription))"
    by (simp add: demo_subscription_def fetch_f_resolves fetch_settles_def)
  have f2: "?fetch (sub_feedUrl ?p2) = Crashed ''Invalid URL''"
    by (simp add: fetch_moved_crashes)
  have m1: "map_of ?subs ''p1'' = Some demo_subscription" by simp
  from m1 f1
    feed_loop_Cons [where subs = ?subs and p = "''p1''" and sub = demo_subscription
      and fetch = ?fetch and parseRSS = demo_extract and clock = demo_clock
      and ms = "\<lambda>k i. 1000" and k = 0 and ps = "[''p2'']" and s = demo_moved_registry
      and results = "[]"]
  obtain subs2 where
    step: "feed_loop ?fetch demo_extract demo_clock (\<lambda>k i. 1000) 0 [''p1'', ''p2'']
             (?subs, demo_moved_registry, [])
           = feed_loop ?fetch demo_extract demo_clock (\<lambda>k i. 1000) (Suc 0) [''p2'']
               (subs2, s1, AList.update ''p1'' (snd (updateFeed ?fetch demo_extract (demo_clock 0)
                  (\<lambda>i. 1000) demo_subscription demo_moved_registry)) [])"
    and m2: "map_of subs2 = (map_of ?subs)(''p1'' \<mapsto> touch ?fetch demo_extract (demo_clock 0)
        demo_subscription)"
    unfolding s1_def by blast
  have "map_of subs2 ''p2'' = Some ?p2" by (simp add: m2)
  then have "feed_loop ?fetch demo_extract demo_clock (\<lambda>k i. 1000) (Suc 0) [''p2'']
               (subs2, s1, AList.update ''p1'' (snd (updateFeed ?fetch demo_extract (demo_clock 0)
                  (\<lambda>i. 1000) demo_subscription demo_moved_registry)) []) = Inl s1"
    using f2 by (rule feed_loop_Cons_crashed)
  with step have "update_feeds_main ?fetch demo_extract demo_clock (\<lambda>k i. 1000)
      demo_moved_registry = s1"
    by (simp add: update_feeds_main_def subs)
  moreover have "subscriptions s1 = subscriptions demo_moved_registry"
    by (simp add: s1_def updateFeed_frame)
  moreover have "last_update s1 = None"
    by (simp add: s1_def updateFeed_def demo_subscription_def fetch_f_resolves ok_def Let_def
        demo_moved_registry_def demo_store_def empty_store_def split: prod.splits)
  moreover have "map_option fs_lastUpdated (feeds s1 ''p1'') = Some ''c0''"
    by (simp add: s1_def updateFeed_def demo_subscription_def fetch_f_resolves ok_def Let_def
        demo_clock_def split: prod.splits)
  ultimately show ?thesis
    by (simp add: fetch_moved_crashes fetch_f_resolves loaded_subscriptions_def
        demo_moved_registry_def demo_subscription_def)
qed


section \<open>Result records\<close>

lemma feed_loop_requests:
  "(case feed_loop fetch parseRSS clock ms k pids (subs, s, results) of
      Inl s' \<Rightarrow> requests s' = requests s \<and> request_log s' = request_log s
    | Inr (subs', s', res) \<Rightarrow> requests s' = requests s \<and> request_log s' = request_log s)"
proof (induction pids arbitrary: k subs s results)
  case Nil
  then show ?case by simp
next
  case (Cons p ps)
  show ?case
  proof (cases "map_of subs p")
    case None
    then show ?thesis by simp
  next
    case (Some sub)
    define s1 where "s1 = fst (updateFeed fetch parseRSS (clock k) (ms k) sub s)"
    have frame: "requests s1 = requests s" "request_log s1 = request_log s"
      by (simp_all add: s1_def updateFeed_frame)
    show ?thesis
    proof (cases "fetch_settles (fetch (sub_feedUrl sub))")
      case True
      from Some True
        feed_loop_Cons [where subs = subs and p = p and sub = sub and fetch = fetch
          and parseRSS = parseRSS and clock = clock and ms = ms and k = k and ps = ps and s = s
          and results = results]
      obtain subs2 where
        step: "feed_loop fetch parseRSS clock ms k (p # ps) (subs, s, results) =
           feed_loop fetch parseRSS clock ms (Suc k) ps (subs2, s1,
             AList.update p (snd (updateFeed fetch parseRSS (clock k) (ms k) sub s)) results)"
        unfolding s1_def by blast
      note ih = Cons.IH [where k = "Suc k" and s = s1 and subs = subs2
          and results = "AList.update p (snd (updateFeed fetch parseRSS (clock k) (ms k) sub s))
             results"]
      show ?thesis unfolding step using ih by (auto simp: frame split: sum.splits)
    next
      case False
      then obtain msg where "fetch (sub_feedUrl sub) = Crashed msg"
        by (cases "fetch (sub_feedUrl sub)") (simp_all add: fetch_settles_def)
      with Some have "feed_loop fetch parseRSS clock ms k (p # ps) (subs, s, results) = Inl s"
        by (rule feed_loop_Cons_crashed)
      then show ?thesis by simp
    qed
  qed
qed

lemma update_feeds_main_requests:
  "requests (update_feeds_main fetch parseRSS clock ms s) = requests s"
  "request_log (update_feeds_main fetch parseRSS clock ms s) = request_log s"
proof -
  show "requests (update_feeds_main fetch parseRSS clock ms s) = requests s"
  proof (cases "subscriptions s")
    case None
    then show ?thesis by (simp add: update_feeds_main_def)
  next
    case (Some subs)
    then show ?thesis
      using feed_loop_requests [where fetch = fetch and parseRSS = parseRSS and clock = clock
          and ms = ms and k = 0 and pids = "map fst subs" and subs = subs and s = s
          and results = "[]"]
      by (auto simp: update_feeds_main_def split: sum.splits)
  qed
  show "request_log (update_feeds_main fetch parseRSS clock ms s) = request_log s"
  proof (cases "subscriptions s")
    case None
    then show ?thesis by (simp add: update_feeds_main_def)
  next
    case (Some subs)
    then show ?thesis
      using feed_loop_requests [where fetch = fetch and parseRSS = parseRSS and clock = clock
          and ms = ms and k = 0 and pids = "map fst subs" and subs = subs and s = s
          and results = "[]"]
      by (auto simp: update_feeds_main_def split: sum.splits)
  qed
qed

lemma fold_save_lookup_frame:
  "requests (fold save_lookup rs s) = requests s \<and> request_log (fold save_lookup rs s) = request_log s"
  by (induction rs arbitrary: s) (simp_all add: save_lookup_def)

lemma subscribe_frame:
  assumes "subscribe md5hex fetch parseRSS now e s = Inr (s', r)"
  shows "requests s' = requests s" and "request_log s' = request_log s" and "rr_success r"
  using assms
  by (auto simp: subscribe_def Let_def no_result_def
      split: if_splits fetch_outcome.splits prod.splits)

lemma subscribe_Uncaught:
  "subscribe md5hex fetch parseRSS now e s = Inl (Uncaught msg)
     \<longleftrightarrow> FEED_URL e \<noteq> [] \<and> fetch (FEED_URL e) = Crashed msg"
  by (auto simp: subscribe_def Let_def split: if_splits fetch_outcome.splits prod.splits)

lemma writes_one_resultI:
  assumes "requests s1 = requests s" and "request_log s1 = request_log s"
    and "well_formed_result rid r"
  shows "writes_one_result rid s (write_request rid r s1)"
  using assms by (simp add: writes_one_result_def write_request_def)

lemma subscribe_main_writes_one:
  assumes "ACTION_of e = ''unsubscribe'' \<or> FEED_URL e = [] \<or> fetch_settles (fetch (FEED_URL e))"
  shows "writes_one_result (REQUEST_ID_of nowms e) s
     (fst (subscribe_main md5hex fetch parseRSS now nowms e s))"
proof (cases "ACTION_of e = ''unsubscribe''")
  case True
  then show ?thesis
    by (simp add: subscribe_main_def Let_def unsubscribe_def writes_one_result_def
        write_request_def well_formed_result_def no_result_def)
next
  case False
  show ?thesis
  proof (cases "subscribe md5hex fetch parseRSS now e s")
    case (Inl f)
    show ?thesis
    proof (cases f)
      case (Thrown msg)
      with Inl False show ?thesis
        by (auto simp: subscribe_main_def Let_def well_formed_result_def no_result_def
            intro!: writes_one_resultI)
    next
      case (Uncaught msg)
      with Inl have "FEED_URL e \<noteq> [] \<and> fetch (FEED_URL e) = Crashed msg"
        by (simp add: subscribe_Uncaught)
      with assms False show ?thesis by (simp add: fetch_settles_def)
    qed
  next
    case (Inr p)
    then obtain s' r where sr: "subscribe md5hex fetch parseRSS now e s = Inr (s', r)"
      by (cases p) simp
    from subscribe_frame [OF sr] show ?thesis using False sr
      by (simp add: subscribe_main_def Let_def well_formed_result_def writes_one_result_def
          write_request_def)
  qed
qed

lemma search_main_writes_one:
  assumes "QUERY e \<noteq> []"
  shows "writes_one_result (REQUEST_ID_of nowms e) s
           (fst (search_main md5hex normalise searchPodcasts now nowms e s))"
proof (cases "searchPodcasts (QUERY e) (LIMIT_of e)")
  case (Inl msg)
  then show ?thesis using assms
    by (simp add: search_main_def Let_def writes_one_result_def write_request_def
        well_formed_result_def no_result_def)
next
  case (Inr results)
  then show ?thesis using assms
    by (simp add: search_main_def Let_def writes_one_result_def fold_save_lookup_frame
        write_request_def well_formed_result_def no_result_def)
qed

lemma download_main_writes_one:
  assumes "EPISODE_URL e \<noteq> []" and "valid_url (EPISODE_URL e)"
    and "download_settles (downloadFile get_throws resolve_url net (EPISODE_URL e))"
  shows "writes_one_result (REQUEST_ID_of nowms e) s
           (fst (download_main valid_url get_throws resolve_url net uploadToInternetArchive
                   now nowms e s))"
  using assms
  by (simp add: download_main_def Let_def writes_one_result_def write_request_def
      well_formed_result_def no_result_def download_settles_def
      split: sum.splits prod.splits download_outcome.splits)

text \<open>
  The paths that end a handler with no result record: \<open>fetch\<close> crashes in
  \<open>subscribe\<close>; \<open>downloadFile\<close> crashes or never settles.
\<close>

lemma subscribe_main_crashed:
  assumes "ACTION_of e \<noteq> ''unsubscribe''" and "FEED_URL e \<noteq> []"
    and "fetch (FEED_URL e) = Crashed msg"
  shows "subscribe_main md5hex fetch parseRSS now nowms e s = (s, Killed msg)"
  using assms by (simp add: subscribe_main_def subscribe_def Let_def)

lemma download_main_not_settled:
  assumes "EPISODE_URL e \<noteq> []" and "valid_url (EPISODE_URL e)"
    and "\<not> download_settles (downloadFile get_throws resolve_url net (EPISODE_URL e))"
  shows "fst (download_main valid_url get_throws resolve_url net uploadToInternetArchive
                now nowms e s) = s"
  using assms
  by (simp add: download_main_def Let_def download_settles_def split: download_outcome.splits)

lemma download_moved_unsettled:
  "downloadFile demo_get_throws demo_resolve_url demo_network ''http://moved'' = DownloadUnsettled"
  by (simp add: downloadFile_def download_request.simps [of _ _ _ _ _ 0]
      download_request.simps [of _ _ _ _ _ "Suc 0"]
      demo_get_throws_def demo_network_def demo_resolve_url_def redirect_to_def)

lemma download_direct_resolves:
  "downloadFile demo_get_throws demo_resolve_url demo_network ''http://moved/feed.xml''
     = Downloaded 3 (Some ''audio/mpeg'')"
  by (simp add: downloadFile_def download_request.simps [of _ _ _ _ _ 0]
      demo_get_throws_def demo_network_def demo_resolve_url_def redirect_to_def)

lemma subscribe_redirect_no_record:
  "subscribe_main demo_md5 (fetch_url demo_get_throws demo_network) demo_extract ''t1'' 0
     (demo_env\<lparr>FEED_URL := ''http://moved''\<rparr>) empty_store
     = (empty_store, Killed ''Invalid URL'')"
  by (rule subscribe_main_crashed)
     (simp_all add: ACTION_of_def demo_env_def fetch_moved_crashes)

lemma download_redirect_no_record:
  "fst (download_main (\<lambda>u. True) demo_get_throws demo_resolve_url demo_network
          (\<lambda>i c. Inr (NotUploaded ''no_credentials'')) ''t1'' 0
          (demo_env\<lparr>EPISODE_URL := ''http://moved''\<rparr>) empty_store) = empty_store"
  by (rule download_main_not_settled)
     (simp_all add: demo_env_def download_moved_unsettled download_settles_def)


text \<open>
  Claim C2 fails: the search handler started with no query exits with code 1 and
  writes nothing under \<open>data/requests\<close>; the batch refresh, which has no request id,
  writes nothing there either.
\<close>

theorem empty_query_writes_no_result:
  "request_log (fst (search_main demo_md5 (\<lambda>q. q) (\<lambda>q l. Inr []) ''t1'' 0 demo_env empty_store)) = []
   \<and> requests (fst (search_main demo_md5 (\<lambda>q. q) (\<lambda>q l. Inr []) ''t1'' 0 demo_env empty_store)) ''r1''
       = None
   \<and> snd (search_main demo_md5 (\<lambda>q. q) (\<lambda>q l. Inr []) ''t1'' 0 demo_env empty_store) = Exit 1
   \<and> request_log (update_feeds_main demo_net demo_extract demo_clock (\<lambda>k i. 1000) demo_registry) = []"
proof -
  have "request_log (update_feeds_main demo_net demo_extract demo_clock (\<lambda>k i. 1000) demo_registry)
          = request_log demo_registry"
    by (rule update_feeds_main_requests)
  then show ?thesis
    by (simp add: search_main_def demo_env_def empty_store_def demo_registry_def demo_store_def)
qed

text \<open>
  Claim C2, amended. \<open>main\<close> of \<open>subscribe.js\<close> writes exactly one result record under
  the request id when it unsubscribes, when the feed URL is missing and when the
  promise of \<open>fetch\<close> settles, resolved or rejected: on success and on failure, with
  the request id, a timestamp and, when \<open>success\<close> is false, the error message. The
  search handler does so on every path behind its guard, a non-empty query. The
  download handler does so behind its guard, a non-empty episode URL that \<open>new URL\<close>
  accepts, when the promise of \<open>downloadFile\<close> settles. With an empty query or an empty
  episode URL the two handlers exit with code 1 and leave the store as it is. The batch
  refresh writes no result record.
\<close>

theorem handlers_write_one_result:
  "(ACTION_of e = ''unsubscribe'' \<or> FEED_URL e = [] \<or> fetch_settles (fetch (FEED_URL e)) \<longrightarrow>
      writes_one_result (REQUEST_ID_of nowms e) s
        (fst (subscribe_main md5hex fetch parseRSS now nowms e s)))
   \<and> (QUERY e \<noteq> [] \<longrightarrow>
        writes_one_result (REQUEST_ID_of nowms e) s
          (fst (search_main md5hex normalise searchPodcasts now nowms e s)))
   \<and> (QUERY e = [] \<longrightarrow> search_main md5hex normalise searchPodcasts now nowms e s = (s, Exit 1))
   \<and> (EPISODE_URL e \<noteq> [] \<and> valid_url (EPISODE_URL e)
        \<and> download_settles (downloadFile get_throws resolve_url net (EPISODE_URL e)) \<longrightarrow>
        writes_one_result (REQUEST_ID_of nowms e) s
          (fst (download_main valid_url get_throws resolve_url net uploadToInternetArchive
                  now nowms e s)))
   \<and> (EPISODE_URL e = [] \<longrightarrow>
        download_main valid_url get_throws resolve_url net uploadToInternetArchive now nowms e s
          = (s, Exit 1))
   \<and> requests (update_feeds_main fetch parseRSS clock ms s) = requests s
   \<and> request_log (update_feeds_main fetch parseRSS clock ms s) = request_log s"
  using subscribe_main_writes_one [of e fetch nowms s md5hex parseRSS now]
    search_main_writes_one [of e nowms s md5hex normalise searchPodcasts now]
    download_main_writes_one [of e valid_url get_throws resolve_url net nowms s
      uploadToInternetArchive now]
    update_feeds_main_requests [of fetch parseRSS clock ms s]
  by (simp add: search_main_def download_main_def)

theorem handlers_write_one_result_witness:
  "fetch_settles (fetch_url demo_get_throws demo_network (FEED_URL demo_env))
   \<and> request_log (fst (subscribe_main demo_md5 (fetch_url demo_get_throws demo_network)
         demo_extract ''t1'' 0 demo_env empty_store)) = [''r1'']
   \<and> map_option rr_success (requests (fst (subscribe_main demo_md5
         (fetch_url demo_get_throws demo_network) demo_extract ''t1'' 0 demo_env empty_store))
         ''r1'') = Some True
   \<and> request_log (fst (subscribe_main demo_md5 (fetch_url demo_get_throws demo_network)
         demo_extract ''t1'' 0 (demo_env\<lparr>FEED_URL := []\<rparr>) empty_store)) = [''r1'']
   \<and> map_option rr_error (requests (fst (subscribe_main demo_md5
         (fetch_url demo_get_throws demo_network) demo_extract ''t1'' 0
         (demo_env\<lparr>FEED_URL := []\<rparr>) empty_store)) ''r1'') = Some (Some ''No feed URL provided'')
   \<and> request_log (fst (subscribe_main demo_md5 (fetch_url demo_get_throws demo_network)
         demo_extract ''t1'' 0 (demo_env\<lparr>ACTION := ''unsubscribe''\<rparr>) empty_store)) = [''r1'']
   \<and> request_log (fst (search_main demo_md5 (\<lambda>q. q) (\<lambda>q l. Inl ''Search failed: 503'') ''t1'' 0
         (demo_env\<lparr>QUERY := ''news''\<rparr>) empty_store)) = [''r1'']
   \<and> map_option rr_error (requests (fst (search_main demo_md5 (\<lambda>q. q)
         (\<lambda>q l. Inl ''Search failed: 503'') ''t1'' 0 (demo_env\<lparr>QUERY := ''news''\<rparr>)
         empty_store)) ''r1'') = Some (Some ''Search failed: 503'')
   \<and> search_main demo_md5 (\<lambda>q. q) (\<lambda>q l. Inl ''Search failed: 503'') ''t1'' 0 demo_env
         empty_store = (empty_store, Exit 1)
   \<and> download_settles (downloadFile demo_get_throws demo_resolve_url demo_network
         ''http://moved/feed.xml'')
   \<and> request_log (fst (download_main (\<lambda>u. True) demo_get_throws demo_resolve_url demo_network
         (\<lambda>i c. Inr (NotUploaded ''no_credentials'')) ''t1'' 0
         (demo_env\<lparr>EPISODE_URL := ''http://moved/feed.xml''\<rparr>) empty_store)) = [''r1'']
   \<and> download_main (\<lambda>u. True) demo_get_throws demo_resolve_url demo_network
         (\<lambda>i c. Inr (NotUploaded ''no_credentials'')) ''t1'' 0 demo_env empty_store
       = (empty_store, Exit 1)
   \<and> request_log (update_feeds_main (fetch_url demo_get_throws demo_network) demo_extract
         demo_clock (\<lambda>k i. 1000) empty_store) = []"
proof -
  let ?fetch = "fetch_url demo_get_throws demo_network"
  let ?up = "\<lambda>i c. Inr (NotUploaded ''no_credentials'')
               :: string + storage"
  have log: "request_log empty_store = []" by (simp add: empty_store_def)
  have rid0: "REQUEST_ID_of 0 demo_env = ''r1''"
    and rid1: "REQUEST_ID_of 0 (demo_env\<lparr>FEED_URL := []\<rparr>) = ''r1''"
    and rid2: "REQUEST_ID_of 0 (demo_env\<lparr>ACTION := ''unsubscribe''\<rparr>) = ''r1''"
    and rid3: "REQUEST_ID_of 0 (demo_env\<lparr>QUERY := ''news''\<rparr>) = ''r1''"
    and rid4: "REQUEST_ID_of 0 (demo_env\<lparr>EPISODE_URL := ''http://moved/feed.xml''\<rparr>) = ''r1''"
    by (simp_all add: REQUEST_ID_of_def demo_env_def)
  have settles: "fetch_settles (?fetch (FEED_URL demo_env))"
    by (simp add: demo_env_def fetch_f_resolves fetch_settles_def)
  have dl: "download_settles (downloadFile demo_get_throws demo_resolve_url demo_network
         ''http://moved/feed.xml'')"
    by (simp add: download_direct_resolves download_settles_def)
  note t = handlers_write_one_result [where s = empty_store and nowms = 0
      and md5hex = demo_md5 and fetch = ?fetch and parseRSS = demo_extract
      and now = "''t1''" and normalise = "\<lambda>q. q"
      and searchPodcasts = "\<lambda>q l. Inl ''Search failed: 503''"
      and valid_url = "\<lambda>u. True" and get_throws = demo_get_throws
      and resolve_url = demo_resolve_url and net = demo_network
      and uploadToInternetArchive = ?up and clock = demo_clock and ms = "\<lambda>k i. 1000"]
  from t [where e = demo_env, THEN conjunct1] settles
  have one: "request_log (fst (subscribe_main demo_md5 ?fetch demo_extract ''t1'' 0 demo_env
         empty_store)) = [''r1'']"
    by (simp add: writes_one_result_def log rid0)
  have ok1: "map_option rr_success (requests (fst (subscribe_main demo_md5 ?fetch demo_extract
         ''t1'' 0 demo_env empty_store)) ''r1'') = Some True"
    by (simp add: subscribe_main_def subscribe_def ACTION_of_def demo_env_def fetch_f_resolves
        ok_def Let_def write_request_def no_result_def REQUEST_ID_of_def split: prod.splits)
  from t [where e = "demo_env\<lparr>FEED_URL := []\<rparr>", THEN conjunct1]
  have two: "request_log (fst (subscribe_main demo_md5 ?fetch demo_extract ''t1'' 0
         (demo_env\<lparr>FEED_URL := []\<rparr>) empty_store)) = [''r1'']"
    by (simp add: writes_one_result_def log rid1)
  have err2: "map_option rr_error (requests (fst (subscribe_main demo_md5 ?fetch demo_extract
         ''t1'' 0 (demo_env\<lparr>FEED_URL := []\<rparr>) empty_store)) ''r1'')
       = Some (Some ''No feed URL provided'')"
    by (simp add: subscribe_main_def subscribe_def ACTION_of_def demo_env_def Let_def
        write_request_def no_result_def REQUEST_ID_of_def)
  from t [where e = "demo_env\<lparr>ACTION := ''unsubscribe''\<rparr>", THEN conjunct1]
  have three: "request_log (fst (subscribe_main demo_md5 ?fetch demo_extract ''t1'' 0
         (demo_env\<lparr>ACTION := ''unsubscribe''\<rparr>) empty_store)) = [''r1'']"
    by (simp add: writes_one_result_def log rid2 ACTION_of_def)
  from t [where e = "demo_env\<lparr>QUERY := ''news''\<rparr>", THEN conjunct2, THEN conjunct1]
  have four: "request_log (fst (search_main demo_md5 (\<lambda>q. q) (\<lambda>q l. Inl ''Search failed: 503'')
         ''t1'' 0 (demo_env\<lparr>QUERY := ''news''\<rparr>) empty_store)) = [''r1'']"
    by (simp add: writes_one_result_def log rid3)
  have err4: "map_option rr_error (requests (fst (search_main demo_md5 (\<lambda>q. q)
         (\<lambda>q l. Inl ''Search failed: 503'') ''t1'' 0 (demo_env\<lparr>QUERY := ''news''\<rparr>)
         empty_store)) ''r1'') = Some (Some ''Search failed: 503'')"
    by (simp add: search_main_def write_request_def no_result_def rid3 Let_def)
  have q0: "QUERY demo_env = []" and u0: "EPISODE_URL demo_env = []"
    by (simp_all add: demo_env_def)
  from t [where e = demo_env, THEN conjunct2, THEN conjunct2, THEN conjunct1] q0
  have five: "search_main demo_md5 (\<lambda>q. q) (\<lambda>q l. Inl ''Search failed: 503'') ''t1'' 0 demo_env
         empty_store = (empty_store, Exit 1)"
    by simp
  from t [where e = "demo_env\<lparr>EPISODE_URL := ''http://moved/feed.xml''\<rparr>",
      THEN conjunct2, THEN conjunct2, THEN conjunct2, THEN conjunct1] dl
  have six: "request_log (fst (download_main (\<lambda>u. True) demo_get_throws demo_resolve_url
         demo_network ?up ''t1'' 0 (demo_env\<lparr>EPISODE_URL := ''http://moved/feed.xml''\<rparr>)
         empty_store)) = [''r1'']"
    by (simp add: writes_one_result_def log rid4)
  from t [where e = demo_env, THEN conjunct2, THEN conjunct2, THEN conjunct2, THEN conjunct2,
      THEN conjunct1] u0
  have seven: "download_main (\<lambda>u. True) demo_get_throws demo_resolve_url demo_network ?up
         ''t1'' 0 demo_env empty_store = (empty_store, Exit 1)"
    by simp
  from t [where e = demo_env, THEN conjunct2, THEN conjunct2, THEN conjunct2, THEN conjunct2,
      THEN conjunct2, THEN conjunct2]
  have eight: "request_log (update_feeds_main ?fetch demo_extract demo_clock (\<lambda>k i. 1000)
         empty_store) = []"
    by (simp add: log)
  show ?thesis
    using settles one ok1 two err2 three four err4 five dl six seven eight by simp
qed

end
